theory Spec2Isabelle
  imports Main
begin

section \<open>The \<open>eventloops\<close> table and the statements run against it\<close>

text \<open>
  \<open>regionservice.py\<close> talks to PostgreSQL through a cursor and eight fixed statements.
  The table is modelled as the list of its rows (in heap order), the cursor as the
  database it works on together with the rows of its last result and the statements it
  has executed so far.  Timestamps are microseconds, as in \<open>TIMESTAMP WITH TIME ZONE\<close>;
  \<open>NOW()\<close> is the start time of the running transaction and is a parameter of every
  operation.
\<close>

type_synonym timestamp = int

record row =
  name :: string
  address :: string
  port :: int
  updated :: timestamp

text \<open>
  The schema state one connection can see: the table \<open>eventloops\<close> (absent before the
  first \<open>CREATE TABLE\<close>) and whether the index \<open>eventloops_name_idx\<close> is listed in
  \<open>pg_indexes\<close> for it.
\<close>

record database =
  eventloops :: "row list option"
  eventloops_name_idx :: bool

datatype sql_error =
    SyntaxError
  | UndefinedTable
  | DuplicateTable
  | CheckViolation
  | UniqueViolation

text \<open>The statements, named after the class attributes that hold their text.\<close>

datatype statement =
    create_statement
  | create_lock_statement
  | create_index_check_statement
  | create_index_statement
  | delete_statement string
  | insert_statement "(string \<times> string \<times> int) list"
  | collect_statement
  | select_statement

datatype result_row = One | Tuple string string int

record cursor =
  db :: database
  fetched :: "result_row list"
  executed :: "statement list"
  locked :: bool

definition five_minutes :: int where
  "five_minutes = 5 * 60 * 1000000"

text \<open>
  One \<open>VALUES\<close> tuple after the other: the \<open>CHECK\<close> on \<open>port\<close>, then the two
  \<open>UNIQUE\<close> constraints against everything already in the table, including the tuples
  this statement has inserted before; \<open>updated\<close> takes its default \<open>NOW()\<close>.
\<close>

fun insert_rows :: "timestamp \<Rightarrow> (string \<times> string \<times> int) list \<Rightarrow> row list \<Rightarrow> sql_error + row list" where
  "insert_rows now [] rows = Inr rows"
| "insert_rows now ((n, a, p) # vs) rows =
     (if \<not> (p > 0 \<and> p \<le> 65535) then Inl CheckViolation
      else if (\<exists>r \<in> set rows. name r = n \<and> address r = a \<and> port r = p) then Inl UniqueViolation
      else if (\<exists>r \<in> set rows. address r = a \<and> port r = p) then Inl UniqueViolation
      else insert_rows now vs (rows @ [\<lparr>name = n, address = a, port = p, updated = now\<rparr>]))"

definition stale :: "timestamp \<Rightarrow> row \<Rightarrow> bool" where
  "stale now r \<longleftrightarrow> updated r < now - five_minutes"

definition with_rows :: "cursor \<Rightarrow> statement \<Rightarrow> (row list \<Rightarrow> sql_error + row list) \<Rightarrow> sql_error + cursor" where
  "with_rows c st f =
     (case eventloops (db c) of
        None \<Rightarrow> Inl UndefinedTable
      | Some rows \<Rightarrow>
          (case f rows of
             Inl e \<Rightarrow> Inl e
           | Inr rows' \<Rightarrow>
               Inr (c\<lparr>db := (db c)\<lparr>eventloops := Some rows'\<rparr>, fetched := [],
                      executed := executed c @ [st]\<rparr>)))"

text \<open>\<open>cursor.execute\<close>: what PostgreSQL does with each of the statements.\<close>

fun execute :: "timestamp \<Rightarrow> statement \<Rightarrow> cursor \<Rightarrow> sql_error + cursor" where
  "execute now create_statement c =
     Inr (c\<lparr>db := (case eventloops (db c) of
                      None \<Rightarrow> (db c)\<lparr>eventloops := Some []\<rparr>
                    | Some rows \<Rightarrow> db c),
            fetched := [], executed := executed c @ [create_statement]\<rparr>)"
| "execute now create_lock_statement c =
     (case eventloops (db c) of
        None \<Rightarrow> Inl UndefinedTable
      | Some rows \<Rightarrow>
          Inr (c\<lparr>locked := True, fetched := [],
                 executed := executed c @ [create_lock_statement]\<rparr>))"
| "execute now create_index_check_statement c =
     Inr (c\<lparr>fetched := (if eventloops_name_idx (db c) then [One] else []),
            executed := executed c @ [create_index_check_statement]\<rparr>)"
| "execute now create_index_statement c =
     (case eventloops (db c) of
        None \<Rightarrow> Inl UndefinedTable
      | Some rows \<Rightarrow>
          if eventloops_name_idx (db c) then Inl DuplicateTable
          else Inr (c\<lparr>db := (db c)\<lparr>eventloops_name_idx := True\<rparr>, fetched := [],
                      executed := executed c @ [create_index_statement]\<rparr>))"
| "execute now (delete_statement n) c =
     with_rows c (delete_statement n) (\<lambda>rows. Inr (filter (\<lambda>r. name r \<noteq> n) rows))"
| "execute now (insert_statement vs) c =
     (if vs = [] then Inl SyntaxError
      else with_rows c (insert_statement vs) (insert_rows now vs))"
| "execute now collect_statement c =
     with_rows c collect_statement (\<lambda>rows. Inr (filter (\<lambda>r. \<not> stale now r) rows))"
| "execute now select_statement c =
     (case eventloops (db c) of
        None \<Rightarrow> Inl UndefinedTable
      | Some rows \<Rightarrow>
          Inr (c\<lparr>fetched := map (\<lambda>r. Tuple (name r) (address r) (port r)) rows,
                 executed := executed c @ [select_statement]\<rparr>))"

section \<open>Deferreds and the RPC listener \<open>RegionService\<close>\<close>

text \<open>
  Both services chain their work on Twisted Deferreds.  A Deferred is modelled by what
  the services read and change of it: whether it has been \<open>called\<close>, its current
  \<open>result\<close>, and the flag \<open>suppressAlreadyCalled\<close> that \<open>cancel()\<close> sets on a
  Deferred without a canceller so that the late result of the cancelled operation is
  dropped.  The callbacks of a Deferred are fixed by the method that creates it, so they
  are written as functions of the service below.
\<close>

datatype exn =
    CancelledError
  | AlreadyCalledError
  | AttributeError
  | CannotListenError
  | DatabaseError sql_error

text \<open>
  The listening port returned by the endpoint (Twisted's \<open>tcp.Port\<close>): its
  \<open>socket\<close> attribute, when present, answers \<open>getsockname()\<close> with a host and a
  port number.  The port has the attribute from the moment it listens until it has
  closed: \<open>connectionLost\<close> marks the port as no longer connected and deletes the
  attribute in one step, so the port is connected exactly while it has a socket.
\<close>

record listening_port =
  socket :: "(string \<times> int) option"

datatype pyval = PyNone | PortObject listening_port

datatype result = Success pyval | Failure exn

record deferred =
  called :: bool
  result :: result
  suppressAlreadyCalled :: bool

definition pending :: deferred where
  "pending = \<lparr>called = False, result = Success PyNone, suppressAlreadyCalled = False\<rparr>"

definition fired :: "result \<Rightarrow> deferred" where
  "fired r = \<lparr>called = True, result = r, suppressAlreadyCalled = False\<rparr>"

record RegionService =
  running :: bool
  starting :: "deferred option"
  s_port :: "listening_port option"
  logged :: "exn list"

text \<open>\<open>__init__\<close>, with the class attribute \<open>starting = None\<close>.\<close>

definition RegionService_init :: RegionService where
  "RegionService_init = \<lparr>running = False, starting = None, s_port = None, logged = []\<rparr>"

text \<open>
  The three handlers that \<open>startService\<close> adds to \<open>self.starting\<close>, in order:
  \<open>save_port\<close> on success, then \<open>ignore_cancellation\<close> and \<open>log.err\<close> on failure.
  \<open>failure.trap(CancelledError)\<close> re-raises every other failure; both errbacks return
  \<open>None\<close> when they handle one.
\<close>

definition save_port :: "pyval \<Rightarrow> RegionService \<Rightarrow> pyval \<times> RegionService" where
  "save_port v s = (v, s\<lparr>s_port := (case v of PyNone \<Rightarrow> None | PortObject p \<Rightarrow> Some p)\<rparr>)"

definition ignore_cancellation :: "exn \<Rightarrow> result" where
  "ignore_cancellation f = (if f = CancelledError then Success PyNone else Failure f)"

definition starting_callbacks :: "result \<Rightarrow> RegionService \<Rightarrow> result \<times> RegionService" where
  "starting_callbacks r s =
     (let (r1, s1) = (case r of
                        Success v \<Rightarrow> (let (v', s') = save_port v s in (Success v', s'))
                      | Failure f \<Rightarrow> (r, s));
          r2 = (case r1 of Success v \<Rightarrow> r1 | Failure f \<Rightarrow> ignore_cancellation f)
      in (case r2 of
            Success v \<Rightarrow> (r2, s1)
          | Failure f \<Rightarrow> (Success PyNone, s1\<lparr>logged := logged s1 @ [f]\<rparr>)))"

text \<open>
  Firing \<open>self.starting\<close> with a result runs the handlers and leaves their final
  result in the Deferred.
\<close>

definition run_starting :: "result \<Rightarrow> deferred \<Rightarrow> RegionService \<Rightarrow> RegionService" where
  "run_starting r d s =
     (let (r', s') = starting_callbacks r s
      in s'\<lparr>starting := Some (d\<lparr>called := True, result := r'\<rparr>)\<rparr>)"

text \<open>
  What \<open>endpoint.listen(factory)\<close> hands back: a Deferred that has already fired with
  the port or with the bind error, or one that is still in flight.
\<close>

datatype listen = Bound listening_port | BindFailed exn | InFlight

definition endpoint_listen :: "listen \<Rightarrow> deferred" where
  "endpoint_listen l =
     (case l of
        Bound p \<Rightarrow> fired (Success (PortObject p))
      | BindFailed e \<Rightarrow> fired (Failure e)
      | InFlight \<Rightarrow> pending)"

definition RegionService_startService :: "listen \<Rightarrow> RegionService \<Rightarrow> RegionService" where
  "RegionService_startService l s =
     (let d = endpoint_listen l;
          s1 = s\<lparr>running := True, starting := Some d\<rparr>
      in if called d then run_starting (result d) d s1 else s1)"

text \<open>
  The endpoint firing the Deferred later on (\<open>Deferred.callback\<close> / \<open>errback\<close>): a
  Deferred that was called already raises \<open>AlreadyCalledError\<close>, unless a
  \<open>cancel()\<close> has asked for that one result to be dropped.
\<close>

definition listen_fires :: "result \<Rightarrow> RegionService \<Rightarrow> exn + RegionService" where
  "listen_fires r s =
     (case starting s of
        None \<Rightarrow> Inr s
      | Some d \<Rightarrow>
          if called d then
            (if suppressAlreadyCalled d
             then Inr (s\<lparr>starting := Some (d\<lparr>suppressAlreadyCalled := False\<rparr>)\<rparr>)
             else Inl AlreadyCalledError)
          else Inr (run_starting r d s))"

text \<open>
  \<open>self.starting.cancel()\<close>: nothing on a Deferred that was called; otherwise the
  late result is to be suppressed and the Deferred fails with \<open>CancelledError\<close>, which
  runs the handlers.
\<close>

definition cancel_starting :: "deferred \<Rightarrow> RegionService \<Rightarrow> RegionService" where
  "cancel_starting d s =
     (if called d then s
      else run_starting (Failure CancelledError) (d\<lparr>suppressAlreadyCalled := True\<rparr>) s)"

text \<open>
  \<open>stopListening()\<close> of the port: while the port is connected it asks the reactor to
  close it and returns a Deferred that fires when that has happened; on a port that has
  closed already it returns \<open>None\<close>.
\<close>

definition connected :: "listening_port \<Rightarrow> bool" where
  "connected p \<longleftrightarrow> socket p \<noteq> None"

definition stopListening :: "listening_port \<Rightarrow> deferred option" where
  "stopListening p = (if connected p then Some pending else None)"

text \<open>
  \<open>stopService\<close>.  \<open>self.starting\<close> is \<open>None\<close> on a service that was never
  started, and \<open>None.cancel()\<close> raises.  With no port saved the Deferred is
  \<open>defer.succeed(None)\<close>, on which the callback \<open>stop_service\<close> runs at once.  With
  a port saved (\<open>self._port\<close> is never reset) the Deferred is what its
  \<open>stopListening()\<close> returns: \<open>stop_service\<close> is added to it and runs when the port
  has closed (\<open>port_closes\<close>), and \<open>d.addCallback\<close> raises when there is no
  Deferred.  An exception leaves the service as it is at that point.
\<close>

definition stop_service :: "RegionService \<Rightarrow> RegionService" where
  "stop_service s = s\<lparr>running := False\<rparr>"

definition RegionService_stopService ::
    "RegionService \<Rightarrow> exn \<times> RegionService + deferred \<times> RegionService" where
  "RegionService_stopService s =
     (case starting s of
        None \<Rightarrow> Inl (AttributeError, s)
      | Some st \<Rightarrow>
          (let s1 = cancel_starting st s
           in case s_port s1 of
                None \<Rightarrow> Inr (fired (Success PyNone), stop_service s1)
              | Some p \<Rightarrow>
                  (case stopListening p of
                     None \<Rightarrow> Inl (AttributeError, s1)
                   | Some d \<Rightarrow> Inr (d, s1))))"

text \<open>
  The reactor closing the port after a \<open>stopListening()\<close>: the port loses its socket,
  the Deferred fires and \<open>stop_service\<close> runs.
\<close>

definition port_closes :: "RegionService \<Rightarrow> RegionService" where
  "port_closes s =
     (case s_port s of
        None \<Rightarrow> s
      | Some p \<Rightarrow>
          if connected p then stop_service (s\<lparr>s_port := Some (p\<lparr>socket := None\<rparr>)\<rparr>) else s)"

text \<open>
  \<open>getPort\<close>: the \<open>AttributeError\<close> of \<open>None.socket\<close>, or of a port without a
  \<open>socket\<close> attribute, is caught and answered with \<open>None\<close>.
\<close>

definition getPort :: "RegionService \<Rightarrow> int option" where
  "getPort s =
     (case s_port s of
        None \<Rightarrow> None
      | Some p \<Rightarrow>
          (case socket p of
             None \<Rightarrow> None
           | Some (host, portno) \<Rightarrow> Some portno))"

section \<open>Registry operations of \<open>RegionAdvertisingService\<close>\<close>

text \<open>
  A statement that fails raises out of the method, so the statements of a method are
  chained with \<open>and_then\<close>, which stops at the first error.
\<close>

definition and_then :: "'e + 'a \<Rightarrow> ('a \<Rightarrow> 'e + 'b) \<Rightarrow> 'e + 'b" where
  "and_then r f = (case r of Inl e \<Rightarrow> Inl e | Inr v \<Rightarrow> f v)"

text \<open>\<open>_do_create\<close>: the index is created only when the check fetched no row.\<close>

definition do_create :: "timestamp \<Rightarrow> cursor \<Rightarrow> sql_error + cursor" where
  "do_create now c =
     and_then (execute now create_statement c) (\<lambda>c1.
     and_then (execute now create_lock_statement c1) (\<lambda>c2.
     and_then (execute now create_index_check_statement c2) (\<lambda>c3.
       if fetched c3 = [] then execute now create_index_statement c3 else Inr c3)))"

text \<open>
  What the methods read from the process around them: \<open>eventloop.loop.name\<close>, the
  service registry \<open>eventloop.services\<close> (\<open>getServiceNamed\<close> raises \<open>KeyError\<close>
  for a name that is not there) and the addresses that
  \<open>get_all_interface_addresses()\<close> finds on the host.
\<close>

record eventloop =
  loop_name :: string
  services :: "string \<rightharpoonup> RegionService"
  all_interface_addresses :: "string list"

text \<open>\<open>_get_addresses\<close>: nothing without an RPC service, nothing without a port.\<close>

definition get_addresses :: "eventloop \<Rightarrow> (string \<times> int) list" where
  "get_addresses e =
     (case services e ''rpc'' of
        None \<Rightarrow> []
      | Some service \<Rightarrow>
          (case getPort service of
             None \<Rightarrow> []
           | Some portno \<Rightarrow> map (\<lambda>addr. (addr, portno)) (all_interface_addresses e)))"

definition do_delete :: "eventloop \<Rightarrow> timestamp \<Rightarrow> cursor \<Rightarrow> sql_error + cursor" where
  "do_delete e now c = execute now (delete_statement (loop_name e)) c"

text \<open>
  \<open>_do_insert\<close>: one \<open>(%s, %s, %s)\<close> group per pair that \<open>_get_addresses\<close> yields,
  and no statement at all when it yields none.
\<close>

definition do_insert :: "eventloop \<Rightarrow> timestamp \<Rightarrow> cursor \<Rightarrow> sql_error + cursor" where
  "do_insert e now c =
     (let values = map (\<lambda>(addr, portno). (loop_name e, addr, portno)) (get_addresses e)
      in if length values \<noteq> 0 then execute now (insert_statement values) c else Inr c)"

definition do_collect :: "timestamp \<Rightarrow> cursor \<Rightarrow> sql_error + cursor" where
  "do_collect now c = execute now collect_statement c"

definition do_select :: "timestamp \<Rightarrow> cursor \<Rightarrow> sql_error + cursor" where
  "do_select now c = execute now select_statement c"

text \<open>
  \<open>transactional\<close>: the body runs inside \<open>transaction.atomic()\<close>.  When it raises,
  the transaction is rolled back and the database is the one before the call; when it
  returns, its changes are committed together.  \<open>statements\<close> lists what was executed
  in a committed transaction.  (\<open>synchronised(lock)\<close> keeps two threads of one process
  from running two such bodies at once; the operations here are run one at a time.)
\<close>

record 'a txn =
  outcome :: "sql_error + 'a"
  committed :: database
  statements :: "statement list"

definition transactional :: "(cursor \<Rightarrow> sql_error + 'a \<times> cursor) \<Rightarrow> database \<Rightarrow> 'a txn" where
  "transactional func d =
     (case func \<lparr>db = d, fetched = [], executed = [], locked = False\<rparr> of
        Inl e \<Rightarrow> \<lparr>outcome = Inl e, committed = d, statements = []\<rparr>
      | Inr (v, c) \<Rightarrow> \<lparr>outcome = Inr v, committed = db c, statements = executed c\<rparr>)"

definition returning :: "(cursor \<Rightarrow> 'a) \<Rightarrow> cursor \<Rightarrow> sql_error + 'a \<times> cursor" where
  "returning f c = Inr (f c, c)"

definition prepare :: "timestamp \<Rightarrow> database \<Rightarrow> unit txn" where
  "prepare now = transactional (\<lambda>c. and_then (do_create now c) (returning (\<lambda>_. ())))"

definition update :: "eventloop \<Rightarrow> timestamp \<Rightarrow> database \<Rightarrow> unit txn" where
  "update e now =
     transactional (\<lambda>c.
       and_then (do_delete e now c) (\<lambda>c1.
       and_then (do_insert e now c1) (\<lambda>c2.
       and_then (do_collect now c2) (returning (\<lambda>_. ())))))"

definition dump :: "timestamp \<Rightarrow> database \<Rightarrow> result_row list txn" where
  "dump now = transactional (\<lambda>c. and_then (do_select now c) (returning fetched))"

definition remove :: "eventloop \<Rightarrow> timestamp \<Rightarrow> database \<Rightarrow> unit txn" where
  "remove e now = transactional (\<lambda>c. and_then (do_delete e now c) (returning (\<lambda>_. ())))"

section \<open>The life cycle of \<open>RegionAdvertisingService\<close>\<close>

text \<open>
  The service is a \<open>TimerService\<close> whose call is \<open>deferToThread(self.update)\<close>.
  Its looping call \<open>self._loop\<close> is created by \<open>TimerService.startService\<close>; before
  that the attribute does not exist (\<open>adv_loop\<close> is \<open>None\<close>), afterwards
  \<open>adv_loop\<close> holds \<open>self._loop.running\<close>.
  \<open>deferToThread\<close> hands a method to the reactor's thread pool and returns a Deferred
  without a canceller, which fires when the method has returned or raised.  The pool is
  the list of the methods handed over and not yet finished; they take the service's
  lock one after the other.
\<close>

datatype job = prepare_job | update_job | remove_job

record RegionAdvertisingService =
  adv_running :: bool
  adv_loop :: "bool option"
  adv_starting :: "deferred option"
  adv_stopping :: "deferred option"

record process =
  service :: RegionAdvertisingService
  pool :: "job list"
  errors :: "exn list"
  store :: database

text \<open>\<open>__init__\<close> in a process connected to the database \<open>d\<close>.\<close>

definition process_init :: "database \<Rightarrow> process" where
  "process_init d =
     \<lparr>service = \<lparr>adv_running = False, adv_loop = None,
                  adv_starting = None, adv_stopping = None\<rparr>,
      pool = [], errors = [], store = d\<rparr>"

text \<open>
  \<open>TimerService.startService\<close> marks the service as running, creates the looping
  call and starts it with \<open>now=True\<close>, which makes the first call at once.
  \<open>TimerService.stopService\<close> reads \<open>self._loop.running\<close>, which raises on a
  service whose looping call was never created; otherwise it stops the loop and marks
  the service as stopped.
\<close>

definition TimerService_startService :: "process \<Rightarrow> process" where
  "TimerService_startService p =
     p\<lparr>service := (service p)\<lparr>adv_running := True, adv_loop := Some True\<rparr>,
       pool := pool p @ [update_job]\<rparr>"

definition TimerService_stopService :: "process \<Rightarrow> exn + process" where
  "TimerService_stopService p =
     (case adv_loop (service p) of
        None \<Rightarrow> Inl AttributeError
      | Some looping \<Rightarrow>
          Inr (p\<lparr>service := (service p)\<lparr>adv_running := False, adv_loop := Some False\<rparr>\<rparr>))"

text \<open>
  The handlers on \<open>self.starting\<close>: the up-call to \<open>TimerService.startService\<close> on
  success, then \<open>ignore_cancellation\<close> and \<open>log.err\<close> on failure.
\<close>

definition adv_starting_callbacks :: "result \<Rightarrow> process \<Rightarrow> result \<times> process" where
  "adv_starting_callbacks r p =
     (case r of
        Success v \<Rightarrow> (Success PyNone, TimerService_startService p)
      | Failure f \<Rightarrow>
          (case ignore_cancellation f of
             Success v \<Rightarrow> (Success v, p)
           | Failure f' \<Rightarrow> (Success PyNone, p\<lparr>errors := errors p @ [f']\<rparr>)))"

definition adv_run_starting :: "result \<Rightarrow> deferred \<Rightarrow> process \<Rightarrow> process" where
  "adv_run_starting r d p =
     (let (r', p') = adv_starting_callbacks r p
      in p'\<lparr>service := (service p')\<lparr>adv_starting := Some (d\<lparr>called := True, result := r'\<rparr>)\<rparr>\<rparr>)"

definition Advertising_startService :: "process \<Rightarrow> process" where
  "Advertising_startService p =
     p\<lparr>service := (service p)\<lparr>adv_starting := Some pending\<rparr>,
       pool := pool p @ [prepare_job]\<rparr>"

text \<open>
  \<open>stopService\<close>: \<open>self.starting\<close> is \<open>None\<close> before the first start, where reading
  \<open>.called\<close> raises.  Cancelling the pending Deferred fails it with
  \<open>CancelledError\<close> and asks for the result of \<open>prepare\<close> to be dropped when it
  arrives.
\<close>

definition Advertising_stopService :: "process \<Rightarrow> exn + process" where
  "Advertising_stopService p =
     (case adv_starting (service p) of
        None \<Rightarrow> Inl AttributeError
      | Some d \<Rightarrow>
          if called d
          then Inr (p\<lparr>service := (service p)\<lparr>adv_stopping := Some pending\<rparr>,
                      pool := pool p @ [remove_job]\<rparr>)
          else Inr (adv_run_starting (Failure CancelledError)
                      (d\<lparr>suppressAlreadyCalled := True\<rparr>) p))"

text \<open>
  The Deferreds firing when a method has finished in its thread.  A second result for
  \<open>self.starting\<close> is dropped once if a cancellation asked for it, and is an
  \<open>AlreadyCalledError\<close> in the log otherwise.  \<open>self.stopping\<close> has the up-call to
  \<open>TimerService.stopService\<close> as its only callback, so a failure of \<open>remove\<close>, or
  of the up-call itself, stays in it.  A failed \<open>update\<close> ends the looping call,
  whose failure is logged.
\<close>

definition as_result :: "sql_error + 'a \<Rightarrow> result" where
  "as_result r = (case r of Inl err \<Rightarrow> Failure (DatabaseError err) | Inr v \<Rightarrow> Success PyNone)"

definition starting_fires :: "result \<Rightarrow> process \<Rightarrow> process" where
  "starting_fires r p =
     (case adv_starting (service p) of
        None \<Rightarrow> p
      | Some d \<Rightarrow>
          if called d then
            (if suppressAlreadyCalled d
             then p\<lparr>service := (service p)\<lparr>adv_starting := Some (d\<lparr>suppressAlreadyCalled := False\<rparr>)\<rparr>\<rparr>
             else p\<lparr>errors := errors p @ [AlreadyCalledError]\<rparr>)
          else adv_run_starting r d p)"

definition stopping_fires :: "result \<Rightarrow> process \<Rightarrow> process" where
  "stopping_fires r p =
     (case adv_stopping (service p) of
        None \<Rightarrow> p
      | Some d \<Rightarrow>
          (case r of
             Success v \<Rightarrow>
               (case TimerService_stopService p of
                  Inl ex \<Rightarrow>
                    p\<lparr>service := (service p)\<lparr>adv_stopping := Some (d\<lparr>called := True, result := Failure ex\<rparr>)\<rparr>\<rparr>
                | Inr p' \<Rightarrow>
                    p'\<lparr>service := (service p')\<lparr>adv_stopping := Some (d\<lparr>called := True, result := Success PyNone\<rparr>)\<rparr>\<rparr>)
           | Failure f \<Rightarrow>
               p\<lparr>service := (service p)\<lparr>adv_stopping := Some (d\<lparr>called := True, result := Failure f\<rparr>)\<rparr>\<rparr>))"

definition loop_call_done :: "result \<Rightarrow> process \<Rightarrow> process" where
  "loop_call_done r p =
     (case r of
        Success v \<Rightarrow> p
      | Failure f \<Rightarrow>
          p\<lparr>service := (service p)\<lparr>adv_loop := Some False\<rparr>, errors := errors p @ [f]\<rparr>)"

text \<open>
  A worker thread finishing the oldest method of the pool, in the process environment
  \<open>e\<close> and in a transaction that started at \<open>now\<close>.
\<close>

definition thread_done :: "eventloop \<Rightarrow> timestamp \<Rightarrow> process \<Rightarrow> process" where
  "thread_done e now p =
     (case pool p of
        [] \<Rightarrow> p
      | j # js \<Rightarrow>
          (case j of
             prepare_job \<Rightarrow>
               (let t = prepare now (store p)
                in starting_fires (as_result (outcome t)) (p\<lparr>pool := js, store := committed t\<rparr>))
           | update_job \<Rightarrow>
               (let t = update e now (store p)
                in loop_call_done (as_result (outcome t)) (p\<lparr>pool := js, store := committed t\<rparr>))
           | remove_job \<Rightarrow>
               (let t = remove e now (store p)
                in stopping_fires (as_result (outcome t)) (p\<lparr>pool := js, store := committed t\<rparr>))))"

text \<open>
  The timer of the looping call going off: the next \<open>deferToThread(self.update)\<close> is
  made if the loop is still running and its previous call has returned.
\<close>

definition timer_fires :: "process \<Rightarrow> process" where
  "timer_fires p =
     (if adv_loop (service p) = Some True \<and> update_job \<notin> set (pool p)
      then p\<lparr>pool := pool p @ [update_job]\<rparr> else p)"

section \<open>Notions used to state the properties\<close>

text \<open>Shorthands for the cursor of a new transaction and for the rows an update inserts.\<close>

definition fresh_cursor :: "database \<Rightarrow> cursor" where
  "fresh_cursor d = \<lparr>db = d, fetched = [], executed = [], locked = False\<rparr>"

definition insert_values :: "eventloop \<Rightarrow> (string \<times> string \<times> int) list" where
  "insert_values e = map (\<lambda>(addr, portno). (loop_name e, addr, portno)) (get_addresses e)"

definition new_row :: "timestamp \<Rightarrow> string \<times> string \<times> int \<Rightarrow> row" where
  "new_row now v = (case v of (n, a, p) \<Rightarrow> \<lparr>name = n, address = a, port = p, updated = now\<rparr>)"

definition socket_of :: "row \<Rightarrow> string \<times> int" where
  "socket_of r = (address r, port r)"

definition triple_of :: "row \<Rightarrow> string \<times> string \<times> int" where
  "triple_of r = (name r, address r, port r)"

text \<open>
  The two \<open>UNIQUE\<close> constraints of the table as a property of its rows (\<open>socket_of\<close>
  is the pair of \<open>address\<close> and \<open>port\<close>, \<open>triple_of\<close> adds the \<open>name\<close>), the databases
  that the four operations can produce from an empty one, and when the pairs a process
  is about to advertise collide with each other or with a row of another name.
\<close>

definition unique_rows :: "row list \<Rightarrow> bool" where
  "unique_rows rows \<longleftrightarrow>
     distinct (map socket_of rows) \<and> distinct (map triple_of rows)"

definition constraints_hold :: "database \<Rightarrow> bool" where
  "constraints_hold d = (case eventloops d of None \<Rightarrow> True | Some rows \<Rightarrow> unique_rows rows)"

definition clashes :: "eventloop \<Rightarrow> row list \<Rightarrow> bool" where
  "clashes e rows \<longleftrightarrow>
     \<not> distinct (get_addresses e) \<or>
     (\<exists>r \<in> set rows. name r \<noteq> loop_name e \<and> socket_of r \<in> set (get_addresses e))"

inductive reachable :: "database \<Rightarrow> bool" where
  no_schema: "reachable \<lparr>eventloops = None, eventloops_name_idx = False\<rparr>"
| after_prepare: "reachable d \<Longrightarrow> reachable (committed (prepare now d))"
| after_update: "reachable d \<Longrightarrow> reachable (committed (update e now d))"
| after_remove: "reachable d \<Longrightarrow> reachable (committed (remove e now d))"
| after_dump: "reachable d \<Longrightarrow> reachable (committed (dump now d))"

text \<open>
  Example data: controllers with a bound listener, one whose listener is still binding,
  one that claims the socket of a peer, and a table that holds one row of a peer.
\<close>

definition listening_service :: "int \<Rightarrow> RegionService" where
  "listening_service portno =
     RegionService_startService (Bound \<lparr>socket = Some (''0.0.0.0'', portno)\<rparr>) RegionService_init"

definition regiond_1 :: eventloop where
  "regiond_1 = \<lparr>loop_name = ''regiond-1'', services = [''rpc'' \<mapsto> listening_service 4321],
                all_interface_addresses = [''10.0.0.5'']\<rparr>"

definition regiond_1_unbound :: eventloop where
  "regiond_1_unbound =
     \<lparr>loop_name = ''regiond-1'',
      services = [''rpc'' \<mapsto> RegionService_startService InFlight RegionService_init],
      all_interface_addresses = [''10.0.0.5'']\<rparr>"

definition regiond_2 :: eventloop where
  "regiond_2 = \<lparr>loop_name = ''regiond-2'', services = [''rpc'' \<mapsto> listening_service 4321],
                all_interface_addresses = [''10.0.0.9'']\<rparr>"

definition regiond_1_on_peer_address :: eventloop where
  "regiond_1_on_peer_address =
     \<lparr>loop_name = ''regiond-1'', services = [''rpc'' \<mapsto> listening_service 4321],
      all_interface_addresses = [''10.0.0.9'']\<rparr>"

definition peer_table :: database where
  "peer_table =
     \<lparr>eventloops = Some [\<lparr>name = ''regiond-2'', address = ''10.0.0.9'', port = 4321, updated = 0\<rparr>],
      eventloops_name_idx = True\<rparr>"

text \<open>
  An advertising service of \<open>regiond-1\<close> that has been started and whose \<open>prepare\<close>
  is still in the pool, and the same service after \<open>prepare\<close> and the first
  \<open>update\<close> have finished.
\<close>

definition preparing_process :: process where
  "preparing_process = Advertising_startService (process_init peer_table)"

definition running_process :: process where
  "running_process =
     thread_done regiond_1 300000000 (thread_done regiond_1 300000000 preparing_process)"

text \<open>
  A database in which \<open>prepare\<close> has never run, and an advertising service started on
  it whose \<open>prepare\<close> is still in the pool.
\<close>

definition unprepared :: database where
  "unprepared = \<lparr>eventloops = None, eventloops_name_idx = False\<rparr>"

definition unprepared_process :: process where
  "unprepared_process = Advertising_startService (process_init unprepared)"

section \<open>Properties of the registry operations\<close>

subsection \<open>Inserting rows\<close>

lemma insert_rows_result:
  "insert_rows now vs rows = Inr rows' \<Longrightarrow> rows' = rows @ map (new_row now) vs"
proof (induction vs arbitrary: rows)
  case Nil
  then show ?case by simp
next
  case (Cons v vs)
  obtain n a p where v: "v = (n, a, p)" by (cases v)
  from Cons.prems have "insert_rows now vs (rows @ [new_row now v]) = Inr rows'"
    by (simp add: v new_row_def split: if_splits)
  then have "rows' = (rows @ [new_row now v]) @ map (new_row now) vs"
    by (rule Cons.IH)
  then show ?case by simp
qed

lemma insert_rows_error:
  "insert_rows now vs rows = Inl err \<Longrightarrow> err = CheckViolation \<or> err = UniqueViolation"
  by (induction vs arbitrary: rows) (auto split: if_splits)

lemma insert_rows_success_iff:
  "(\<exists>rows'. insert_rows now vs rows = Inr rows') \<longleftrightarrow>
     (\<forall>v \<in> set vs. 0 < snd (snd v) \<and> snd (snd v) \<le> 65535) \<and>
     distinct (map snd vs) \<and>
     snd ` set vs \<inter> socket_of ` set rows = {}"
proof (induction vs arbitrary: rows)
  case Nil
  then show ?case by simp
next
  case (Cons v vs)
  obtain n a p where v: "v = (n, a, p)" by (cases v)
  show ?case
    unfolding v
    apply (simp add: Cons.IH socket_of_def image_Un)
    apply (auto simp: image_iff)
    done
qed

lemma not_stale_new_row: "\<not> stale now (new_row now v)"
  by (cases v) (simp add: stale_def new_row_def five_minutes_def)

lemma filter_fresh_new_rows:
  "filter (\<lambda>r. \<not> stale now r) (map (new_row now) vs) = map (new_row now) vs"
  by (induction vs) (simp_all add: not_stale_new_row)

lemma new_row_insert_values:
  "map (new_row now) (insert_values e) =
     map (\<lambda>(a, p). \<lparr>name = loop_name e, address = a, port = p, updated = now\<rparr>) (get_addresses e)"
  by (simp add: insert_values_def new_row_def case_prod_unfold)

lemma snd_insert_values: "map snd (insert_values e) = get_addresses e"
  by (simp add: insert_values_def case_prod_unfold comp_def)

lemma name_new_row_insert_values:
  "v \<in> set (insert_values e) \<Longrightarrow> name (new_row now v) = loop_name e"
  by (auto simp: insert_values_def new_row_def)

lemma filter_other_new_rows:
  "filter (\<lambda>r. name r \<noteq> loop_name e) (map (new_row now) (insert_values e)) = []"
  by (simp add: filter_empty_conv name_new_row_insert_values)

lemma filter_own_new_rows:
  "filter (\<lambda>r. name r = loop_name e) (map (new_row now) (insert_values e)) =
     map (new_row now) (insert_values e)"
  by (simp add: filter_id_conv name_new_row_insert_values)

lemma triple_of_new_row: "triple_of (new_row now v) = v"
  by (cases v) (simp add: triple_of_def new_row_def)

lemma socket_of_new_row: "socket_of (new_row now v) = snd v"
  by (cases v) (simp add: socket_of_def new_row_def)

subsection \<open>What \<open>update()\<close> computes\<close>

lemma update_undefined:
  "eventloops d = None \<Longrightarrow>
     update e now d = \<lparr>outcome = Inl UndefinedTable, committed = d, statements = []\<rparr>"
  by (simp add: update_def transactional_def and_then_def do_delete_def with_rows_def)

lemma update_unfold:
  assumes "eventloops d = Some rows"
  shows "update e now d =
     (case insert_rows now (insert_values e) (filter (\<lambda>r. name r \<noteq> loop_name e) rows) of
        Inl err \<Rightarrow> \<lparr>outcome = Inl err, committed = d, statements = []\<rparr>
      | Inr rows' \<Rightarrow>
          \<lparr>outcome = Inr (),
           committed = d\<lparr>eventloops := Some (filter (\<lambda>r. \<not> stale now r) rows')\<rparr>,
           statements = [delete_statement (loop_name e)]
              @ (if get_addresses e = [] then [] else [insert_statement (insert_values e)])
              @ [collect_statement]\<rparr>)"
  using assms
  by (auto simp: update_def transactional_def and_then_def do_delete_def do_insert_def
      do_collect_def with_rows_def returning_def insert_values_def Let_def split: sum.splits)

lemma update_success:
  assumes "outcome (update e now d) = Inr ()"
  shows "\<exists>rows. eventloops d = Some rows \<and>
           (\<exists>rows'. insert_rows now (insert_values e)
                      (filter (\<lambda>r. name r \<noteq> loop_name e) rows) = Inr rows') \<and>
           committed (update e now d) =
             d\<lparr>eventloops := Some (filter (\<lambda>r. \<not> stale now r)
                                      (filter (\<lambda>r. name r \<noteq> loop_name e) rows)
                                   @ map (new_row now) (insert_values e))\<rparr>"
proof -
  from assms obtain rows where rows: "eventloops d = Some rows"
    by (cases "eventloops d") (auto simp: update_undefined)
  let ?kept = "filter (\<lambda>r. name r \<noteq> loop_name e) rows"
  from assms rows obtain rows' where ins: "insert_rows now (insert_values e) ?kept = Inr rows'"
    by (auto simp: update_unfold split: sum.splits)
  then have "rows' = ?kept @ map (new_row now) (insert_values e)"
    by (rule insert_rows_result)
  with rows ins show ?thesis
    by (simp add: update_unfold filter_fresh_new_rows)
qed

lemma update_succeeds:
  assumes "eventloops d = Some rows"
    and "insert_rows now (insert_values e) (filter (\<lambda>r. name r \<noteq> loop_name e) rows) = Inr rows'"
  shows "outcome (update e now d) = Inr ()"
  using assms by (simp add: update_unfold)

lemma update_failure_rolls_back:
  "outcome (update e now d) = Inl err \<Longrightarrow>
     update e now d = \<lparr>outcome = Inl err, committed = d, statements = []\<rparr>"
  by (cases "eventloops d") (auto simp: update_undefined update_unfold split: sum.splits)

text \<open>The example controllers and their first advertising cycle next to a peer's row.\<close>

lemmas service_defs =
  listening_service_def RegionService_startService_def RegionService_init_def endpoint_listen_def
  fired_def pending_def run_starting_def starting_callbacks_def save_port_def
  ignore_cancellation_def getPort_def

lemma get_addresses_regiond_1: "get_addresses regiond_1 = [(''10.0.0.5'', 4321)]"
  by (simp add: regiond_1_def get_addresses_def service_defs)

lemma get_addresses_regiond_2: "get_addresses regiond_2 = [(''10.0.0.9'', 4321)]"
  by (simp add: regiond_2_def get_addresses_def service_defs)

lemma get_addresses_on_peer_address:
  "get_addresses regiond_1_on_peer_address = [(''10.0.0.9'', 4321)]"
  by (simp add: regiond_1_on_peer_address_def get_addresses_def service_defs)

lemma first_update:
  "update regiond_1 300000000 peer_table =
   \<lparr>outcome = Inr (),
    committed =
      \<lparr>eventloops = Some [\<lparr>name = ''regiond-2'', address = ''10.0.0.9'', port = 4321, updated = 0\<rparr>,
                         \<lparr>name = ''regiond-1'', address = ''10.0.0.5'', port = 4321,
                          updated = 300000000\<rparr>],
       eventloops_name_idx = True\<rparr>,
    statements = [delete_statement ''regiond-1'',
                  insert_statement [(''regiond-1'', ''10.0.0.5'', 4321)], collect_statement]\<rparr>"
  by (simp add: update_unfold [of _ "[\<lparr>name = ''regiond-2'', address = ''10.0.0.9'', port = 4321, updated = 0\<rparr>]"]
      peer_table_def insert_values_def get_addresses_regiond_1 stale_def five_minutes_def)
    (simp add: regiond_1_def)

subsection \<open>Removing this process's rows\<close>

text \<open>
  Claim C10.  \<open>remove()\<close>, and the delete step \<open>_do_delete\<close> that \<open>update()\<close> starts
  with, delete the rows whose \<open>name\<close> is this process's event-loop name and nothing
  else: what is left is the table with exactly those rows filtered out, every other row
  as it was and in its place, and the index untouched.
\<close>

theorem remove_only_own_rows:
  assumes "eventloops d = Some rows"
  shows "outcome (remove e now d) = Inr () \<and>
         committed (remove e now d) =
           d\<lparr>eventloops := Some (filter (\<lambda>r. name r \<noteq> loop_name e) rows)\<rparr> \<and>
         statements (remove e now d) = [delete_statement (loop_name e)] \<and>
         (\<exists>c'. do_delete e now (fresh_cursor d) = Inr c' \<and>
               db c' = d\<lparr>eventloops := Some (filter (\<lambda>r. name r \<noteq> loop_name e) rows)\<rparr>)"
  using assms
  by (simp add: remove_def transactional_def and_then_def do_delete_def with_rows_def
      returning_def fresh_cursor_def)

theorem remove_only_own_rows_witness:
  "committed (remove \<lparr>loop_name = ''regiond-1'', services = Map.empty, all_interface_addresses = []\<rparr> 0
      \<lparr>eventloops = Some [\<lparr>name = ''regiond-1'', address = ''10.0.0.5'', port = 4321, updated = 0\<rparr>,
                          \<lparr>name = ''regiond-2'', address = ''10.0.0.9'', port = 4321, updated = 0\<rparr>],
       eventloops_name_idx = True\<rparr>) =
   \<lparr>eventloops = Some [\<lparr>name = ''regiond-2'', address = ''10.0.0.9'', port = 4321, updated = 0\<rparr>],
    eventloops_name_idx = True\<rparr>"
  using remove_only_own_rows [of
      "\<lparr>eventloops = Some [\<lparr>name = ''regiond-1'', address = ''10.0.0.5'', port = 4321, updated = 0\<rparr>,
                          \<lparr>name = ''regiond-2'', address = ''10.0.0.9'', port = 4321, updated = 0\<rparr>],
       eventloops_name_idx = True\<rparr>"
      "[\<lparr>name = ''regiond-1'', address = ''10.0.0.5'', port = 4321, updated = 0\<rparr>,
        \<lparr>name = ''regiond-2'', address = ''10.0.0.9'', port = 4321, updated = 0\<rparr>]"
      "\<lparr>loop_name = ''regiond-1'', services = Map.empty, all_interface_addresses = []\<rparr>" 0]
  by simp

subsection \<open>The staleness sweep\<close>

text \<open>
  Claim C3.  \<open>_do_collect\<close>, the last step of \<open>update()\<close>, keeps exactly the rows whose
  \<open>updated\<close> is not more than five minutes before \<open>NOW()\<close>, whatever their \<open>name\<close>: a
  row refreshed six minutes ago is gone afterwards, a row refreshed one minute ago is
  still there.
\<close>

theorem collect_removes_exactly_stale:
  assumes "eventloops (db c) = Some rows"
  shows "\<exists>c' rows'. do_collect now c = Inr c' \<and>
           db c' = (db c)\<lparr>eventloops := Some rows'\<rparr> \<and>
           rows' = filter (\<lambda>r. \<not> updated r < now - 5 * 60 * 1000000) rows \<and>
           (\<forall>r \<in> set rows. updated r = now - 6 * 60 * 1000000 \<longrightarrow> r \<notin> set rows') \<and>
           (\<forall>r \<in> set rows. updated r = now - 1 * 60 * 1000000 \<longrightarrow> r \<in> set rows')"
  using assms
  by (auto simp: do_collect_def with_rows_def stale_def five_minutes_def)

theorem collect_removes_exactly_stale_witness:
  "\<exists>c'. do_collect 1000000000
      (fresh_cursor \<lparr>eventloops = Some [\<lparr>name = ''regiond-1'', address = ''10.0.0.5'', port = 4321, updated = 640000000\<rparr>,
                          \<lparr>name = ''regiond-2'', address = ''10.0.0.9'', port = 4321, updated = 940000000\<rparr>],
       eventloops_name_idx = True\<rparr>) = Inr c' \<and>
     eventloops (db c') =
       Some [\<lparr>name = ''regiond-2'', address = ''10.0.0.9'', port = 4321, updated = 940000000\<rparr>]"
  using collect_removes_exactly_stale [of
      "fresh_cursor \<lparr>eventloops = Some [\<lparr>name = ''regiond-1'', address = ''10.0.0.5'', port = 4321, updated = 640000000\<rparr>,
                          \<lparr>name = ''regiond-2'', address = ''10.0.0.9'', port = 4321, updated = 940000000\<rparr>],
       eventloops_name_idx = True\<rparr>"
      "[\<lparr>name = ''regiond-1'', address = ''10.0.0.5'', port = 4321, updated = 640000000\<rparr>,
        \<lparr>name = ''regiond-2'', address = ''10.0.0.9'', port = 4321, updated = 940000000\<rparr>]"
      1000000000]
  by (auto simp: fresh_cursor_def)

subsection \<open>The advertising cycle\<close>

text \<open>
  Claim C1.  A call of \<open>update()\<close> that succeeds has run, on one cursor and in one
  transaction that is committed as a whole, first the delete of the rows named after
  this process, then the insert of one row for each pair of \<open>_get_addresses\<close> under
  that name (one statement, and none when there is no pair), and last the sweep of stale
  rows: the executed statements are these, in this order, and the table after each step
  is the one the step makes of the table before it.
\<close>

theorem update_steps_in_order:
  assumes "outcome (update e now d) = Inr ()"
  shows "\<exists>c1 c2 c3 rows.
           do_delete e now (fresh_cursor d) = Inr c1 \<and>
           do_insert e now c1 = Inr c2 \<and>
           do_collect now c2 = Inr c3 \<and>
           committed (update e now d) = db c3 \<and>
           statements (update e now d) = executed c3 \<and>
           executed c3 =
             [delete_statement (loop_name e)]
             @ (if get_addresses e = [] then [] else [insert_statement (insert_values e)])
             @ [collect_statement] \<and>
           eventloops d = Some rows \<and>
           eventloops (db c1) = Some (filter (\<lambda>r. name r \<noteq> loop_name e) rows) \<and>
           eventloops (db c2) =
             Some (filter (\<lambda>r. name r \<noteq> loop_name e) rows
                   @ map (\<lambda>(a, p). \<lparr>name = loop_name e, address = a, port = p, updated = now\<rparr>)
                       (get_addresses e)) \<and>
           eventloops (db c3) =
             Some (filter (\<lambda>r. \<not> updated r < now - 5 * 60 * 1000000)
                     (filter (\<lambda>r. name r \<noteq> loop_name e) rows)
                   @ map (\<lambda>(a, p). \<lparr>name = loop_name e, address = a, port = p, updated = now\<rparr>)
                       (get_addresses e))"
proof -
  from assms obtain rows where rows: "eventloops d = Some rows"
    by (cases "eventloops d") (auto simp: update_undefined)
  let ?kept = "filter (\<lambda>r. name r \<noteq> loop_name e) rows"
  from assms rows obtain rows' where ins: "insert_rows now (insert_values e) ?kept = Inr rows'"
    by (auto simp: update_unfold split: sum.splits)
  then have rows': "rows' = ?kept @ map (new_row now) (insert_values e)"
    by (rule insert_rows_result)
  let ?c1 = "\<lparr>db = d\<lparr>eventloops := Some ?kept\<rparr>, fetched = [],
           executed = [delete_statement (loop_name e)], locked = False\<rparr>"
  let ?c2 = "\<lparr>db = d\<lparr>eventloops := Some rows'\<rparr>, fetched = [],
           executed = [delete_statement (loop_name e)]
             @ (if get_addresses e = [] then [] else [insert_statement (insert_values e)]),
           locked = False\<rparr>"
  let ?c3 = "?c2\<lparr>db := d\<lparr>eventloops := Some (filter (\<lambda>r. \<not> stale now r) rows')\<rparr>,
                 executed := executed ?c2 @ [collect_statement]\<rparr>"
  have c1: "do_delete e now (fresh_cursor d) = Inr ?c1"
    using rows by (simp add: do_delete_def with_rows_def fresh_cursor_def)
  have c2: "do_insert e now ?c1 = Inr ?c2"
  proof (cases "get_addresses e = []")
    case True
    with ins show ?thesis
      by (simp add: do_insert_def insert_values_def)
  next
    case False
    with ins show ?thesis
      by (simp add: do_insert_def with_rows_def insert_values_def)
  qed
  have c3: "do_collect now ?c2 = Inr ?c3"
    by (simp add: do_collect_def with_rows_def)
  have fin: "filter (\<lambda>r. \<not> stale now r) rows' =
      filter (\<lambda>r. \<not> updated r < now - 5 * 60 * 1000000) ?kept
      @ map (\<lambda>(a, p). \<lparr>name = loop_name e, address = a, port = p, updated = now\<rparr>) (get_addresses e)"
  proof -
    have "filter (\<lambda>r. \<not> stale now r) rows' =
        filter (\<lambda>r. \<not> stale now r) ?kept @ map (new_row now) (insert_values e)"
      unfolding rows' by (simp add: filter_fresh_new_rows)
    then show ?thesis
      by (simp add: new_row_insert_values stale_def five_minutes_def)
  qed
  have upd: "update e now d = \<lparr>outcome = Inr (), committed = db ?c3, statements = executed ?c3\<rparr>"
    using rows ins by (simp add: update_unfold)
  show ?thesis
    apply (rule exI [of _ ?c1], rule exI [of _ ?c2], rule exI [of _ ?c3], rule exI [of _ rows])
    using c1 c2 c3 upd rows fin rows' new_row_insert_values [of now e]
    apply simp
    done
qed

theorem update_steps_in_order_witness:
  "outcome (update regiond_1 300000000 peer_table) = Inr () \<and>
   (\<exists>c3 :: cursor. committed (update regiond_1 300000000 peer_table) = db c3 \<and>
         statements (update regiond_1 300000000 peer_table) = executed c3 \<and>
         executed c3 = [delete_statement ''regiond-1'',
                        insert_statement [(''regiond-1'', ''10.0.0.5'', 4321)],
                        collect_statement])"
proof -
  have ok: "outcome (update regiond_1 300000000 peer_table) = Inr ()"
    by (simp add: first_update)
  have name: "loop_name regiond_1 = ''regiond-1''"
    by (simp add: regiond_1_def)
  from update_steps_in_order [OF ok] obtain c3 :: cursor where
    "committed (update regiond_1 300000000 peer_table) = db c3"
    "statements (update regiond_1 300000000 peer_table) = executed c3"
    "executed c3 =
       [delete_statement (loop_name regiond_1)]
       @ (if get_addresses regiond_1 = [] then [] else [insert_statement (insert_values regiond_1)])
       @ [collect_statement]"
    by blast
  with ok show ?thesis
    by (auto simp: insert_values_def get_addresses_regiond_1 name)
qed

text \<open>
  Claim C5.  When the service registry has no \<open>rpc\<close> service, or the service has no
  port yet, \<open>_get_addresses\<close> yields nothing and \<open>update()\<close> still succeeds: it
  runs the delete and the sweep and no insert, so that no row of this process is left.
\<close>

theorem update_without_addresses:
  assumes "services e ''rpc'' = None \<or> (\<exists>s. services e ''rpc'' = Some s \<and> getPort s = None)"
    and "eventloops d = Some rows"
  shows "get_addresses e = [] \<and>
         update e now d =
           \<lparr>outcome = Inr (),
            committed = d\<lparr>eventloops := Some (filter (\<lambda>r. \<not> updated r < now - 5 * 60 * 1000000)
                                             (filter (\<lambda>r. name r \<noteq> loop_name e) rows))\<rparr>,
            statements = [delete_statement (loop_name e), collect_statement]\<rparr>"
proof -
  from assms(1) have none: "get_addresses e = []"
    by (auto simp: get_addresses_def)
  then have "insert_values e = []"
    by (simp add: insert_values_def)
  with none assms(2) show ?thesis
    by (simp add: update_unfold stale_def five_minutes_def)
qed

theorem update_without_addresses_witness:
  "update regiond_1_unbound 300000000
     \<lparr>eventloops = Some [\<lparr>name = ''regiond-1'', address = ''10.0.0.5'', port = 4321, updated = 240000000\<rparr>],
      eventloops_name_idx = True\<rparr> =
   \<lparr>outcome = Inr (),
    committed = \<lparr>eventloops = Some [], eventloops_name_idx = True\<rparr>,
    statements = [delete_statement ''regiond-1'', collect_statement]\<rparr>"
proof -
  have "\<exists>s. services regiond_1_unbound ''rpc'' = Some s \<and> getPort s = None"
    by (simp add: regiond_1_unbound_def service_defs)
  then have h: "services regiond_1_unbound ''rpc'' = None \<or>
      (\<exists>s. services regiond_1_unbound ''rpc'' = Some s \<and> getPort s = None)" ..
  have name: "loop_name regiond_1_unbound = ''regiond-1''"
    by (simp add: regiond_1_unbound_def)
  show ?thesis
    using update_without_addresses [OF h, of
        "\<lparr>eventloops = Some [\<lparr>name = ''regiond-1'', address = ''10.0.0.5'', port = 4321, updated = 240000000\<rparr>],
          eventloops_name_idx = True\<rparr>"
        "[\<lparr>name = ''regiond-1'', address = ''10.0.0.5'', port = 4321, updated = 240000000\<rparr>]"
        300000000]
    by (simp add: name)
qed

subsection \<open>Preparing the schema\<close>

text \<open>
  Claim C9.  \<open>prepare()\<close> always succeeds.  It creates the table when there is none
  and leaves an existing one as it is, takes the exclusive lock, then checks for the
  index and creates it exactly when the check finds none; the lock is taken before the
  check and is still held when \<open>_do_create\<close> returns.  Run a second time, it executes
  the first three statements only, creates no index, fails with nothing and leaves the
  database as the first run left it.
\<close>

theorem prepare_creates_index_once:
  "outcome (prepare now d) = Inr () \<and>
   statements (prepare now d) =
     [create_statement, create_lock_statement, create_index_check_statement]
     @ (if eventloops_name_idx d then [] else [create_index_statement]) \<and>
   committed (prepare now d) =
     \<lparr>eventloops = Some (case eventloops d of None \<Rightarrow> [] | Some rows \<Rightarrow> rows),
      eventloops_name_idx = True\<rparr> \<and>
   outcome (prepare now' (committed (prepare now d))) = Inr () \<and>
   statements (prepare now' (committed (prepare now d))) =
     [create_statement, create_lock_statement, create_index_check_statement] \<and>
   committed (prepare now' (committed (prepare now d))) = committed (prepare now d) \<and>
   (\<exists>c. do_create now (fresh_cursor d) = Inr c \<and> locked c \<and>
        executed c = statements (prepare now d) \<and> db c = committed (prepare now d))"
  by (cases d; cases "eventloops d")
     (simp_all add: prepare_def transactional_def and_then_def do_create_def returning_def
        fresh_cursor_def)

subsection \<open>The uniqueness constraints\<close>

lemma distinct_triples: "distinct (map socket_of rows) \<Longrightarrow> distinct (map triple_of rows)"
proof -
  assume d: "distinct (map socket_of rows)"
  have "map socket_of rows = map snd (map triple_of rows)"
    by (simp add: socket_of_def triple_of_def)
  with d have "distinct (map snd (map triple_of rows))" by simp
  then show ?thesis by (simp only: distinct_map)
qed

lemma unique_rows_iff: "unique_rows rows \<longleftrightarrow> distinct (map socket_of rows)"
  by (auto simp: unique_rows_def distinct_triples)

lemma unique_rows_filter: "unique_rows rows \<Longrightarrow> unique_rows (filter P rows)"
  by (simp add: unique_rows_iff distinct_map_filter)

lemma unique_rows_insert:
  assumes "unique_rows rows" and "insert_rows now vs rows = Inr rows'"
  shows "unique_rows rows'"
proof -
  from assms(2) have rows': "rows' = rows @ map (new_row now) vs"
    by (rule insert_rows_result)
  from assms(2) have "distinct (map snd vs)" and "snd ` set vs \<inter> socket_of ` set rows = {}"
    using insert_rows_success_iff [of now vs rows] by blast+
  moreover have "map socket_of (map (new_row now) vs) = map snd vs"
    by (simp add: socket_of_new_row)
  ultimately show ?thesis
    using assms(1) unfolding rows' unique_rows_iff
    by (auto simp: socket_of_new_row comp_def)
qed

lemma prepare_committed:
  "committed (prepare now d) =
     \<lparr>eventloops = Some (case eventloops d of None \<Rightarrow> [] | Some rows \<Rightarrow> rows),
      eventloops_name_idx = True\<rparr>"
  by (cases d; cases "eventloops d")
     (simp_all add: prepare_def transactional_def and_then_def do_create_def returning_def)

lemma remove_committed:
  "eventloops (committed (remove e now d)) =
     map_option (filter (\<lambda>r. name r \<noteq> loop_name e)) (eventloops d)"
  by (cases "eventloops d")
     (simp_all add: remove_def transactional_def and_then_def do_delete_def with_rows_def
        returning_def)

lemma dump_committed: "committed (dump now d) = d"
  by (cases "eventloops d")
     (simp_all add: dump_def transactional_def and_then_def do_select_def returning_def)

lemma update_keeps_constraints:
  assumes "constraints_hold d"
  shows "constraints_hold (committed (update e now d))"
proof (cases "eventloops d")
  case None
  then show ?thesis using assms by (simp add: update_undefined)
next
  case (Some rows)
  with assms have u: "unique_rows (filter (\<lambda>r. name r \<noteq> loop_name e) rows)"
    by (simp add: constraints_hold_def unique_rows_filter)
  show ?thesis
  proof (cases "insert_rows now (insert_values e) (filter (\<lambda>r. name r \<noteq> loop_name e) rows)")
    case (Inl err)
    with Some assms show ?thesis by (simp add: update_unfold)
  next
    case (Inr rows')
    with u have "unique_rows rows'" by (rule unique_rows_insert)
    then have "unique_rows (filter (\<lambda>r. \<not> stale now r) rows')" by (rule unique_rows_filter)
    with Some Inr show ?thesis by (simp add: update_unfold constraints_hold_def)
  qed
qed

lemma reachable_constraints_hold: "reachable d \<Longrightarrow> constraints_hold d"
proof (induction rule: reachable.induct)
  case no_schema
  show ?case by (simp add: constraints_hold_def)
next
  case (after_prepare d now)
  then show ?case
    by (simp add: prepare_committed constraints_hold_def unique_rows_def split: option.splits)
next
  case (after_update d e now)
  from after_update.IH show ?case by (rule update_keeps_constraints)
next
  case (after_remove d e now)
  then show ?case
    by (cases "eventloops d") (simp_all add: constraints_hold_def remove_committed unique_rows_filter)
next
  case (after_dump d now)
  then show ?case by (simp add: dump_committed)
qed

lemma clashes_fail:
  assumes "eventloops d = Some rows" and "clashes e rows"
  shows "\<exists>err. outcome (update e now d) = Inl err \<and> (err = UniqueViolation \<or> err = CheckViolation)"
proof -
  let ?kept = "filter (\<lambda>r. name r \<noteq> loop_name e) rows"
  have "\<not> (\<exists>rows'. insert_rows now (insert_values e) ?kept = Inr rows')"
  proof -
    have "set (get_addresses e) = snd ` set (insert_values e)"
      using snd_insert_values [of e] by (metis set_map)
    with assms(2) show ?thesis
      unfolding insert_rows_success_iff clashes_def snd_insert_values
      by auto
  qed
  then obtain err where err: "insert_rows now (insert_values e) ?kept = Inl err"
    by (cases "insert_rows now (insert_values e) ?kept") auto
  then have "err = CheckViolation \<or> err = UniqueViolation" by (rule insert_rows_error)
  with err assms(1) show ?thesis by (auto simp: update_unfold)
qed

lemma reachable_peer_table: "reachable peer_table"
proof -
  let ?none = "\<lparr>eventloops = None, eventloops_name_idx = False\<rparr>"
  have p: "committed (prepare 0 ?none) = \<lparr>eventloops = Some [], eventloops_name_idx = True\<rparr>"
    by (simp add: prepare_committed)
  have "committed (update regiond_2 0 (committed (prepare 0 ?none))) = peer_table"
    unfolding p
    by (simp add: update_unfold [of _ "[]"] insert_values_def get_addresses_regiond_2
        stale_def five_minutes_def peer_table_def)
      (simp add: regiond_2_def)
  moreover have "reachable (committed (update regiond_2 0 (committed (prepare 0 ?none))))"
    by (intro reachable.intros)
  ultimately show ?thesis by simp
qed

text \<open>
  Claim C2.  In every database that the registry operations can produce, no two rows
  of \<open>eventloops\<close> have the same address and port, and no two the same name, address
  and port.  An \<open>update()\<close> that fails commits nothing: the database is the one before
  the call.  In particular an \<open>update()\<close> whose pairs repeat a pair, or name the
  address and port of a row that another name holds, fails with a constraint violation
  and leaves every row as it was.
\<close>

theorem registry_uniqueness:
  assumes "reachable d"
  shows "(\<forall>rows. eventloops d = Some rows \<longrightarrow>
            distinct (map socket_of rows) \<and> distinct (map triple_of rows)) \<and>
         (\<forall>e now err. outcome (update e now d) = Inl err \<longrightarrow> committed (update e now d) = d) \<and>
         (\<forall>e now rows. eventloops d = Some rows \<and> clashes e rows \<longrightarrow>
            (outcome (update e now d) = Inl UniqueViolation \<or>
             outcome (update e now d) = Inl CheckViolation) \<and>
            committed (update e now d) = d)"
proof (intro conjI allI impI)
  fix rows assume "eventloops d = Some rows"
  with reachable_constraints_hold [OF assms] have "unique_rows rows"
    by (simp add: constraints_hold_def)
  then show "distinct (map socket_of rows)" and "distinct (map triple_of rows)"
    by (simp_all add: unique_rows_def)
next
  fix e now err assume "outcome (update e now d) = Inl err"
  then show "committed (update e now d) = d"
    by (simp add: update_failure_rolls_back)
next
  fix e now rows assume h: "eventloops d = Some rows \<and> clashes e rows"
  then obtain err where "outcome (update e now d) = Inl err"
    and "err = UniqueViolation \<or> err = CheckViolation"
    using clashes_fail by blast
  then show "outcome (update e now d) = Inl UniqueViolation \<or>
      outcome (update e now d) = Inl CheckViolation"
    by auto
next
  fix e now rows assume h: "eventloops d = Some rows \<and> clashes e rows"
  then obtain err where "outcome (update e now d) = Inl err"
    using clashes_fail by blast
  then show "committed (update e now d) = d"
    by (simp add: update_failure_rolls_back)
qed

theorem registry_uniqueness_witness:
  "reachable peer_table \<and>
   clashes regiond_1_on_peer_address
     [\<lparr>name = ''regiond-2'', address = ''10.0.0.9'', port = 4321, updated = 0\<rparr>] \<and>
   outcome (update regiond_1_on_peer_address 60000000 peer_table) = Inl UniqueViolation \<and>
   committed (update regiond_1_on_peer_address 60000000 peer_table) = peer_table"
proof -
  let ?rows = "[\<lparr>name = ''regiond-2'', address = ''10.0.0.9'', port = 4321, updated = 0\<rparr>]"
  have rows: "eventloops peer_table = Some ?rows"
    by (simp add: peer_table_def)
  have name: "loop_name regiond_1_on_peer_address = ''regiond-1''"
    by (simp add: regiond_1_on_peer_address_def)
  have clash: "clashes regiond_1_on_peer_address ?rows"
    by (simp add: clashes_def get_addresses_on_peer_address socket_of_def name)
  have fails: "outcome (update regiond_1_on_peer_address 60000000 peer_table) = Inl UniqueViolation"
    by (simp add: update_unfold [OF rows] insert_values_def get_addresses_on_peer_address name)
  from registry_uniqueness [OF reachable_peer_table] rows clash
  have "committed (update regiond_1_on_peer_address 60000000 peer_table) = peer_table"
    by blast
  with reachable_peer_table clash fails show ?thesis by simp
qed

subsection \<open>Two advertising cycles in a row\<close>

text \<open>
  Claim C4 says that two calls of \<open>update()\<close> in a row, with the same name, addresses
  and port, leave the same set of rows.  The sweep at the end of each call reads the
  clock: a peer's row that is exactly five minutes old at the first call survives it
  and is swept by a second call one microsecond later, so \<open>dump()\<close> returns two rows
  after the first call and one after the second.
\<close>

theorem update_twice_counterexample:
  "outcome (update regiond_1 300000000 peer_table) = Inr () \<and>
   outcome (update regiond_1 300000001 (committed (update regiond_1 300000000 peer_table))) = Inr () \<and>
   outcome (dump 300000002 (committed (update regiond_1 300000000 peer_table))) =
     Inr [Tuple ''regiond-2'' ''10.0.0.9'' 4321, Tuple ''regiond-1'' ''10.0.0.5'' 4321] \<and>
   outcome (dump 300000002
       (committed (update regiond_1 300000001 (committed (update regiond_1 300000000 peer_table))))) =
     Inr [Tuple ''regiond-1'' ''10.0.0.5'' 4321] \<and>
   outcome (dump 300000002
       (committed (update regiond_1 300000001 (committed (update regiond_1 300000000 peer_table))))) \<noteq>
     outcome (dump 300000002 (committed (update regiond_1 300000000 peer_table)))"
  unfolding first_update
  by (simp add: update_unfold [of _ "[\<lparr>name = ''regiond-2'', address = ''10.0.0.9'', port = 4321, updated = 0\<rparr>,
        \<lparr>name = ''regiond-1'', address = ''10.0.0.5'', port = 4321, updated = 300000000\<rparr>]"]
      insert_values_def get_addresses_regiond_1 stale_def five_minutes_def
      dump_def transactional_def and_then_def do_select_def returning_def)
    (simp add: regiond_1_def)

text \<open>
  Claim C4, amended.  When a call of \<open>update()\<close> has succeeded, a second call with the
  same name, addresses and port succeeds as well, and after each of the two calls the
  rows of this process are the same: one row for each pair, no pair twice.  The rows of
  other names after the second call are those after the first call without the ones
  that are stale at the second call; when none of them is, the name, address and port
  of all rows are the same after both calls.
\<close>

theorem update_twice_same_own_rows:
  assumes "outcome (update e now1 d) = Inr ()"
  shows "\<exists>rows1 rows2.
           eventloops (committed (update e now1 d)) = Some rows1 \<and>
           outcome (update e now2 (committed (update e now1 d))) = Inr () \<and>
           eventloops (committed (update e now2 (committed (update e now1 d)))) = Some rows2 \<and>
           map triple_of (filter (\<lambda>r. name r = loop_name e) rows1) =
             map (\<lambda>(a, p). (loop_name e, a, p)) (get_addresses e) \<and>
           map triple_of (filter (\<lambda>r. name r = loop_name e) rows2) =
             map (\<lambda>(a, p). (loop_name e, a, p)) (get_addresses e) \<and>
           distinct (get_addresses e) \<and>
           filter (\<lambda>r. name r \<noteq> loop_name e) rows2 =
             filter (\<lambda>r. \<not> updated r < now2 - 5 * 60 * 1000000)
               (filter (\<lambda>r. name r \<noteq> loop_name e) rows1) \<and>
           ((\<forall>r \<in> set rows1. name r \<noteq> loop_name e \<longrightarrow> \<not> updated r < now2 - 5 * 60 * 1000000) \<longrightarrow>
              map triple_of rows2 = map triple_of rows1)"
proof -
  let ?other = "\<lambda>r. name r \<noteq> loop_name e"
  let ?own = "\<lambda>r. name r = loop_name e"
  let ?vals = "insert_values e"
  from update_success [OF assms] obtain rows rows' where
    rows: "eventloops d = Some rows" and
    ins1: "insert_rows now1 ?vals (filter ?other rows) = Inr rows'" and
    d1: "committed (update e now1 d) =
           d\<lparr>eventloops := Some (filter (\<lambda>r. \<not> stale now1 r) (filter ?other rows)
                                 @ map (new_row now1) ?vals)\<rparr>"
    by blast
  let ?F1 = "filter (\<lambda>r. \<not> stale now1 r) (filter ?other rows)"
  let ?rows1 = "?F1 @ map (new_row now1) ?vals"
  let ?d1 = "committed (update e now1 d)"
  have e1: "eventloops ?d1 = Some ?rows1" by (simp add: d1)
  have other1: "filter ?other ?rows1 = ?F1"
    by (simp add: filter_other_new_rows) (metis (mono_tags, lifting) filter_cong filter_filter)
  have own1: "filter ?own ?rows1 = map (new_row now1) ?vals"
    by (auto simp: filter_own_new_rows filter_empty_conv)
  from ins1 have ok: "(\<forall>v \<in> set ?vals. 0 < snd (snd v) \<and> snd (snd v) \<le> 65535)"
      "distinct (map snd ?vals)" "snd ` set ?vals \<inter> socket_of ` set (filter ?other rows) = {}"
    using insert_rows_success_iff [of now1 ?vals "filter ?other rows"] by blast+
  have "snd ` set ?vals \<inter> socket_of ` set ?F1 = {}"
    using ok(3) by auto
  with ok(1,2) obtain rows'' where ins2: "insert_rows now2 ?vals ?F1 = Inr rows''"
    using insert_rows_success_iff [of now2 ?vals ?F1] by blast
  with e1 other1 have succ2: "outcome (update e now2 ?d1) = Inr ()"
    by (simp add: update_succeeds)
  from update_success [OF succ2] obtain rowsx where
    "eventloops ?d1 = Some rowsx" and
    "committed (update e now2 ?d1) =
       ?d1\<lparr>eventloops := Some (filter (\<lambda>r. \<not> stale now2 r) (filter ?other rowsx)
                               @ map (new_row now2) ?vals)\<rparr>"
    by blast
  with e1 have "eventloops (committed (update e now2 ?d1)) =
        Some (filter (\<lambda>r. \<not> stale now2 r) (filter ?other ?rows1) @ map (new_row now2) ?vals)"
    by simp
  then have d2:
    "eventloops (committed (update e now2 ?d1)) =
        Some (filter (\<lambda>r. \<not> stale now2 r) ?F1 @ map (new_row now2) ?vals)"
    by (simp only: other1)
  let ?rows2 = "filter (\<lambda>r. \<not> stale now2 r) ?F1 @ map (new_row now2) ?vals"
  have other2: "filter ?other ?rows2 = filter (\<lambda>r. \<not> stale now2 r) ?F1"
    by (simp add: filter_other_new_rows) (metis (mono_tags, lifting) filter_cong filter_filter)
  have own2: "filter ?own ?rows2 = map (new_row now2) ?vals"
    by (auto simp: filter_own_new_rows filter_empty_conv)
  have vals: "?vals = map (\<lambda>(a, p). (loop_name e, a, p)) (get_addresses e)"
    by (simp add: insert_values_def)
  have tr: "\<And>now. map triple_of (map (new_row now) ?vals) = ?vals"
    by (simp add: triple_of_new_row comp_def)
  have dist: "distinct (get_addresses e)"
    using ok(2) by (simp add: snd_insert_values)
  have same: "(\<forall>r \<in> set ?rows1. name r \<noteq> loop_name e \<longrightarrow> \<not> updated r < now2 - 5 * 60 * 1000000) \<longrightarrow>
      map triple_of ?rows2 = map triple_of ?rows1"
  proof
    assume a: "\<forall>r \<in> set ?rows1. name r \<noteq> loop_name e \<longrightarrow> \<not> updated r < now2 - 5 * 60 * 1000000"
    have "filter (\<lambda>r. \<not> stale now2 r) ?F1 = ?F1"
      unfolding filter_id_conv using a by (auto simp: stale_def five_minutes_def)
    then show "map triple_of ?rows2 = map triple_of ?rows1"
      using tr by (simp add: comp_def)
  qed
  show ?thesis
    apply (rule exI [of _ ?rows1], rule exI [of _ ?rows2])
    apply (intro conjI)
           apply (rule e1)
          apply (rule succ2)
         apply (rule d2)
        apply (simp only: own1 tr vals [symmetric])
       apply (simp only: own2 tr vals [symmetric])
      apply (rule dist)
     apply (simp only: other1 other2)
     apply (simp add: stale_def five_minutes_def)
    apply (rule same)
    done
qed

theorem update_twice_same_own_rows_witness:
  "outcome (update regiond_1 300000000 peer_table) = Inr () \<and>
   outcome (update regiond_1 300000001 (committed (update regiond_1 300000000 peer_table))) = Inr () \<and>
   distinct (get_addresses regiond_1)"
proof -
  have ok: "outcome (update regiond_1 300000000 peer_table) = Inr ()"
    by (simp add: first_update)
  from update_twice_same_own_rows [OF ok, of 300000001] ok show ?thesis
    by blast
qed

section \<open>Properties of the two services\<close>

subsection \<open>Stopping the advertising service\<close>

lemma remove_result:
  "eventloops d = Some rows \<Longrightarrow>
     remove e now d =
       \<lparr>outcome = Inr (),
        committed = d\<lparr>eventloops := Some (filter (\<lambda>r. name r \<noteq> loop_name e) rows)\<rparr>,
        statements = [delete_statement (loop_name e)]\<rparr>"
  by (simp add: remove_def transactional_def and_then_def do_delete_def with_rows_def returning_def)

lemma prepare_result:
  "prepare now d =
     \<lparr>outcome = Inr (),
      committed = \<lparr>eventloops = Some (case eventloops d of None \<Rightarrow> [] | Some rows \<Rightarrow> rows),
                   eventloops_name_idx = True\<rparr>,
      statements = [create_statement, create_lock_statement, create_index_check_statement]
        @ (if eventloops_name_idx d then [] else [create_index_statement])\<rparr>"
  by (cases d; cases "eventloops d")
     (simp_all add: prepare_def transactional_def and_then_def do_create_def returning_def)

lemma dump_result:
  "eventloops d = Some rows \<Longrightarrow>
     outcome (dump now d) = Inr (map (\<lambda>r. Tuple (name r) (address r) (port r)) rows)"
  by (simp add: dump_def transactional_def and_then_def do_select_def returning_def)

lemma preparing_process_eq:
  "preparing_process =
     \<lparr>service = \<lparr>adv_running = False, adv_loop = None,
                  adv_starting = Some pending, adv_stopping = None\<rparr>,
      pool = [prepare_job], errors = [], store = peer_table\<rparr>"
  by (simp add: preparing_process_def Advertising_startService_def process_init_def)

lemma unprepared_process_eq:
  "unprepared_process =
     \<lparr>service = \<lparr>adv_running = False, adv_loop = None,
                  adv_starting = Some pending, adv_stopping = None\<rparr>,
      pool = [prepare_job], errors = [], store = unprepared\<rparr>"
  by (simp add: unprepared_process_def Advertising_startService_def process_init_def)

lemma prepare_peer_table:
  "prepare now peer_table =
     \<lparr>outcome = Inr (), committed = peer_table,
      statements = [create_statement, create_lock_statement, create_index_check_statement]\<rparr>"
  by (simp add: prepare_result) (simp add: peer_table_def)

lemma running_process_eq:
  "running_process =
     \<lparr>service = \<lparr>adv_running = True, adv_loop = Some True,
                  adv_starting = Some \<lparr>called = True, result = Success PyNone,
                                        suppressAlreadyCalled = False\<rparr>,
                  adv_stopping = None\<rparr>,
      pool = [], errors = [],
      store = \<lparr>eventloops = Some [\<lparr>name = ''regiond-2'', address = ''10.0.0.9'', port = 4321, updated = 0\<rparr>,
                         \<lparr>name = ''regiond-1'', address = ''10.0.0.5'', port = 4321,
                          updated = 300000000\<rparr>],
       eventloops_name_idx = True\<rparr>\<rparr>"
  by (simp add: running_process_def preparing_process_eq thread_done_def prepare_peer_table
      starting_fires_def adv_run_starting_def adv_starting_callbacks_def as_result_def
      TimerService_startService_def pending_def first_update loop_call_done_def)

lemma update_running_store:
  "update regiond_1 300000000
     \<lparr>eventloops = Some [\<lparr>name = ''regiond-2'', address = ''10.0.0.9'', port = 4321, updated = 0\<rparr>],
      eventloops_name_idx = True\<rparr> =
   \<lparr>outcome = Inr (),
    committed =
      \<lparr>eventloops = Some [\<lparr>name = ''regiond-2'', address = ''10.0.0.9'', port = 4321, updated = 0\<rparr>,
                         \<lparr>name = ''regiond-1'', address = ''10.0.0.5'', port = 4321,
                          updated = 300000000\<rparr>],
       eventloops_name_idx = True\<rparr>,
    statements = [delete_statement ''regiond-1'',
                  insert_statement [(''regiond-1'', ''10.0.0.5'', 4321)], collect_statement]\<rparr>"
  using first_update by (simp add: peer_table_def)

text \<open>
  Claim C6 says that a stop during start-up never touches the registry, and that a stop
  after start-up leaves no row of this process.  Neither holds in every run.  The timer
  is stopped only in the callback of \<open>remove\<close>, so when it goes off between
  \<open>stopService\<close> and the end of \<open>remove\<close>, the \<open>update\<close> it hands over runs
  after \<open>remove\<close> and advertises the process again: the service is stopped, and
  \<open>dump()\<close> still returns its row.  And the \<open>prepare\<close> of a cancelled start is
  already in the thread pool and runs all the same: on a database without the table it
  creates the table and the index.
\<close>

theorem stopService_by_state_counterexample:
  "(\<exists>p'. Advertising_stopService running_process = Inr p' \<and>
         pool (timer_fires p') = [remove_job, update_job] \<and>
         outcome (dump 300000000
           (store (thread_done regiond_1 300000000
              (thread_done regiond_1 300000000 (timer_fires p'))))) =
           Inr [Tuple ''regiond-2'' ''10.0.0.9'' 4321, Tuple ''regiond-1'' ''10.0.0.5'' 4321] \<and>
         adv_loop (service (thread_done regiond_1 300000000
              (thread_done regiond_1 300000000 (timer_fires p')))) = Some False \<and>
         adv_running (service (thread_done regiond_1 300000000
              (thread_done regiond_1 300000000 (timer_fires p')))) = False \<and>
         pool (thread_done regiond_1 300000000
              (thread_done regiond_1 300000000 (timer_fires p'))) = []) \<and>
   (\<exists>p'. Advertising_stopService unprepared_process = Inr p' \<and>
         store p' = \<lparr>eventloops = None, eventloops_name_idx = False\<rparr> \<and>
         store (thread_done regiond_1 0 p') =
           \<lparr>eventloops = Some [], eventloops_name_idx = True\<rparr>)"
proof -
  have name: "loop_name regiond_1 = ''regiond-1''"
    by (simp add: regiond_1_def)
  have 1: "\<exists>p'. Advertising_stopService running_process = Inr p' \<and>
         pool (timer_fires p') = [remove_job, update_job] \<and>
         outcome (dump 300000000
           (store (thread_done regiond_1 300000000
              (thread_done regiond_1 300000000 (timer_fires p'))))) =
           Inr [Tuple ''regiond-2'' ''10.0.0.9'' 4321, Tuple ''regiond-1'' ''10.0.0.5'' 4321] \<and>
         adv_loop (service (thread_done regiond_1 300000000
              (thread_done regiond_1 300000000 (timer_fires p')))) = Some False \<and>
         adv_running (service (thread_done regiond_1 300000000
              (thread_done regiond_1 300000000 (timer_fires p')))) = False \<and>
         pool (thread_done regiond_1 300000000
              (thread_done regiond_1 300000000 (timer_fires p'))) = []"
    by (simp add: running_process_eq Advertising_stopService_def timer_fires_def
        thread_done_def remove_result stopping_fires_def as_result_def
        TimerService_stopService_def pending_def loop_call_done_def name
        update_running_store dump_result)
  have 2: "\<exists>p'. Advertising_stopService unprepared_process = Inr p' \<and>
         store p' = \<lparr>eventloops = None, eventloops_name_idx = False\<rparr> \<and>
         store (thread_done regiond_1 0 p') =
           \<lparr>eventloops = Some [], eventloops_name_idx = True\<rparr>"
    by (simp add: unprepared_process_eq Advertising_stopService_def adv_run_starting_def
        adv_starting_callbacks_def ignore_cancellation_def pending_def thread_done_def
        prepare_result starting_fires_def as_result_def unprepared_def)
  from 1 2 show ?thesis ..
qed

text \<open>
  Stopping a second time while the cancelled \<open>prepare\<close> is still in the pool finds
  \<open>self.starting\<close> called: it hands over \<open>remove\<close>, and the up-call to
  \<open>TimerService.stopService\<close> then raises because no looping call was ever created.
\<close>

lemma stop_after_cancelled_start:
  "\<exists>p' p''. Advertising_stopService preparing_process = Inr p' \<and>
      Advertising_stopService p' = Inr p'' \<and>
      pool p'' = [prepare_job, remove_job] \<and>
      adv_stopping (service (thread_done regiond_1 0 (thread_done regiond_1 0 p''))) =
        Some \<lparr>called = True, result = Failure AttributeError, suppressAlreadyCalled = False\<rparr>"
proof -
  have table: "eventloops peer_table =
      Some [\<lparr>name = ''regiond-2'', address = ''10.0.0.9'', port = 4321, updated = 0\<rparr>]"
    by (simp add: peer_table_def)
  show ?thesis
    by (simp add: preparing_process_eq Advertising_stopService_def adv_run_starting_def
        adv_starting_callbacks_def ignore_cancellation_def pending_def thread_done_def
        prepare_peer_table starting_fires_def as_result_def stopping_fires_def
        TimerService_stopService_def remove_result [OF table])
qed

text \<open>
  Claim C6, amended.  \<open>stopService\<close> of the advertising service goes by whether
  \<open>self.starting\<close> has been called.  While it is pending, \<open>stopService\<close> cancels
  it (its result becomes \<open>None\<close>, nothing is logged) and does nothing else: it hands
  no method to the thread pool and the database is as before.  The \<open>prepare\<close> that
  start-up had already handed over still runs: it creates the table and the index where
  they are missing and touches no row; its result is dropped, the timer is not started
  and no \<open>update\<close> is queued, then or when a timer goes off.  Once start-up has
  completed and the looping call exists, \<open>stopService\<close> hands over \<open>remove\<close> and
  leaves the timer as it is; when \<open>remove\<close> is the next method to finish, the rows of
  this process's name are gone, \<open>dump()\<close> returns the rows of the other names only,
  and only then the timer is stopped, after which it queues no \<open>update\<close> any more.
\<close>

theorem stopService_by_state:
  assumes "adv_starting (service p) = Some d"
  shows "(\<not> called d \<longrightarrow>
           (\<exists>p'. Advertising_stopService p = Inr p' \<and>
                 store p' = store p \<and> pool p' = pool p \<and> errors p' = errors p \<and>
                 adv_stopping (service p') = adv_stopping (service p) \<and>
                 adv_running (service p') = adv_running (service p) \<and>
                 adv_loop (service p') = adv_loop (service p) \<and>
                 adv_starting (service p') =
                   Some \<lparr>called = True, result = Success PyNone, suppressAlreadyCalled = True\<rparr> \<and>
                 (pool p = [prepare_job] \<longrightarrow>
                    (\<exists>p''. thread_done e now p' = p'' \<and>
                       store p'' =
                         \<lparr>eventloops = Some (case eventloops (store p) of None \<Rightarrow> [] | Some rows \<Rightarrow> rows),
                          eventloops_name_idx = True\<rparr> \<and>
                       pool p'' = [] \<and> errors p'' = errors p \<and>
                       adv_running (service p'') = adv_running (service p) \<and>
                       adv_loop (service p'') = adv_loop (service p) \<and>
                       thread_done e now' p'' = p'' \<and>
                       (adv_loop (service p) = None \<longrightarrow> timer_fires p'' = p''))))) \<and>
         (called d \<longrightarrow>
           (\<exists>p'. Advertising_stopService p = Inr p' \<and>
                 store p' = store p \<and> pool p' = pool p @ [remove_job] \<and>
                 adv_running (service p') = adv_running (service p) \<and>
                 adv_loop (service p') = adv_loop (service p) \<and>
                 (pool p = [] \<and> eventloops (store p) = Some rows \<and>
                  adv_loop (service p) = Some looping \<longrightarrow>
                    (\<exists>p''. thread_done e now p' = p'' \<and>
                       eventloops (store p'') = Some (filter (\<lambda>r. name r \<noteq> loop_name e) rows) \<and>
                       outcome (dump now' (store p'')) =
                         Inr (map (\<lambda>r. Tuple (name r) (address r) (port r))
                                (filter (\<lambda>r. name r \<noteq> loop_name e) rows)) \<and>
                       adv_loop (service p'') = Some False \<and> \<not> adv_running (service p'') \<and>
                       adv_stopping (service p'') =
                         Some \<lparr>called = True, result = Success PyNone,
                               suppressAlreadyCalled = False\<rparr> \<and>
                       pool p'' = [] \<and> timer_fires p'' = p''))))"
proof (intro conjI impI)
  assume nc: "\<not> called d"
  let ?p' = "adv_run_starting (Failure CancelledError) (d\<lparr>suppressAlreadyCalled := True\<rparr>) p"
  have stop: "Advertising_stopService p = Inr ?p'"
    using assms nc by (simp add: Advertising_stopService_def)
  have p': "?p' = p\<lparr>service := (service p)\<lparr>adv_starting :=
      Some (d\<lparr>suppressAlreadyCalled := True, called := True, result := Success PyNone\<rparr>)\<rparr>\<rparr>"
    by (simp add: adv_run_starting_def adv_starting_callbacks_def ignore_cancellation_def)
  show "\<exists>p'. Advertising_stopService p = Inr p' \<and>
                 store p' = store p \<and> pool p' = pool p \<and> errors p' = errors p \<and>
                 adv_stopping (service p') = adv_stopping (service p) \<and>
                 adv_running (service p') = adv_running (service p) \<and>
                 adv_loop (service p') = adv_loop (service p) \<and>
                 adv_starting (service p') =
                   Some \<lparr>called = True, result = Success PyNone, suppressAlreadyCalled = True\<rparr> \<and>
                 (pool p = [prepare_job] \<longrightarrow>
                    (\<exists>p''. thread_done e now p' = p'' \<and>
                       store p'' =
                         \<lparr>eventloops = Some (case eventloops (store p) of None \<Rightarrow> [] | Some rows \<Rightarrow> rows),
                          eventloops_name_idx = True\<rparr> \<and>
                       pool p'' = [] \<and> errors p'' = errors p \<and>
                       adv_running (service p'') = adv_running (service p) \<and>
                       adv_loop (service p'') = adv_loop (service p) \<and>
                       thread_done e now' p'' = p'' \<and>
                       (adv_loop (service p) = None \<longrightarrow> timer_fires p'' = p'')))"
    apply (rule exI [of _ ?p'])
    apply (simp add: stop)
    apply (simp add: p' thread_done_def starting_fires_def prepare_result as_result_def
        timer_fires_def)
    done
next
  assume c: "called d"
  let ?p' = "p\<lparr>service := (service p)\<lparr>adv_stopping := Some pending\<rparr>, pool := pool p @ [remove_job]\<rparr>"
  have stop: "Advertising_stopService p = Inr ?p'"
    using assms c by (simp add: Advertising_stopService_def)
  show "\<exists>p'. Advertising_stopService p = Inr p' \<and>
                 store p' = store p \<and> pool p' = pool p @ [remove_job] \<and>
                 adv_running (service p') = adv_running (service p) \<and>
                 adv_loop (service p') = adv_loop (service p) \<and>
                 (pool p = [] \<and> eventloops (store p) = Some rows \<and>
                  adv_loop (service p) = Some looping \<longrightarrow>
                    (\<exists>p''. thread_done e now p' = p'' \<and>
                       eventloops (store p'') = Some (filter (\<lambda>r. name r \<noteq> loop_name e) rows) \<and>
                       outcome (dump now' (store p'')) =
                         Inr (map (\<lambda>r. Tuple (name r) (address r) (port r))
                                (filter (\<lambda>r. name r \<noteq> loop_name e) rows)) \<and>
                       adv_loop (service p'') = Some False \<and> \<not> adv_running (service p'') \<and>
                       adv_stopping (service p'') =
                         Some \<lparr>called = True, result = Success PyNone,
                               suppressAlreadyCalled = False\<rparr> \<and>
                       pool p'' = [] \<and> timer_fires p'' = p''))"
    apply (rule exI [of _ ?p'])
    apply (simp add: stop)
    apply (auto simp: thread_done_def stopping_fires_def remove_result as_result_def
        TimerService_stopService_def dump_result timer_fires_def pending_def)
    done
qed

theorem stopService_by_state_witness:
  "(\<exists>p'. Advertising_stopService preparing_process = Inr p' \<and>
         store p' = peer_table \<and> pool p' = [prepare_job] \<and>
         store (thread_done regiond_1 300000000 p') = peer_table \<and>
         adv_loop (service (thread_done regiond_1 300000000 p')) = None) \<and>
   (\<exists>p'. Advertising_stopService running_process = Inr p' \<and>
         adv_loop (service p') = Some True \<and>
         eventloops (store (thread_done regiond_1 360000000 p')) =
           Some [\<lparr>name = ''regiond-2'', address = ''10.0.0.9'', port = 4321, updated = 0\<rparr>] \<and>
         adv_loop (service (thread_done regiond_1 360000000 p')) = Some False)"
proof -
  have a: "adv_starting (service preparing_process) = Some pending"
    by (simp add: preparing_process_eq)
  have b: "adv_starting (service running_process) =
      Some \<lparr>called = True, result = Success PyNone, suppressAlreadyCalled = False\<rparr>"
    by (simp add: running_process_eq)
  have name: "loop_name regiond_1 = ''regiond-1''"
    by (simp add: regiond_1_def)
  have table: "peer_table =
      \<lparr>eventloops = Some [\<lparr>name = ''regiond-2'', address = ''10.0.0.9'', port = 4321, updated = 0\<rparr>],
       eventloops_name_idx = True\<rparr>"
    by (simp add: peer_table_def)
  have rows: "eventloops (store running_process) =
      Some [\<lparr>name = ''regiond-2'', address = ''10.0.0.9'', port = 4321, updated = 0\<rparr>,
            \<lparr>name = ''regiond-1'', address = ''10.0.0.5'', port = 4321, updated = 300000000\<rparr>]"
    by (simp add: running_process_eq)
  from stopService_by_state [OF a, where e = regiond_1 and now = 300000000 and now' = 0
      and rows = "[]" and looping = True]
  have 1: "\<exists>p'. Advertising_stopService preparing_process = Inr p' \<and>
         store p' = peer_table \<and> pool p' = [prepare_job] \<and>
         store (thread_done regiond_1 300000000 p') = peer_table \<and>
         adv_loop (service (thread_done regiond_1 300000000 p')) = None"
    by (auto simp: pending_def preparing_process_eq table)
  from stopService_by_state [OF b, where e = regiond_1 and now = 360000000 and now' = 0
      and looping = True
      and rows = "[\<lparr>name = ''regiond-2'', address = ''10.0.0.9'', port = 4321, updated = 0\<rparr>,
            \<lparr>name = ''regiond-1'', address = ''10.0.0.5'', port = 4321, updated = 300000000\<rparr>]"] rows
  have 2: "\<exists>p'. Advertising_stopService running_process = Inr p' \<and>
         adv_loop (service p') = Some True \<and>
         eventloops (store (thread_done regiond_1 360000000 p')) =
           Some [\<lparr>name = ''regiond-2'', address = ''10.0.0.9'', port = 4321, updated = 0\<rparr>] \<and>
         adv_loop (service (thread_done regiond_1 360000000 p')) = Some False"
    by (auto simp: running_process_eq name)
  from 1 2 show ?thesis ..
qed

subsection \<open>Stopping the RPC listener and reading its port\<close>

lemmas region_defs =
  RegionService_startService_def RegionService_stopService_def RegionService_init_def
  endpoint_listen_def fired_def pending_def run_starting_def starting_callbacks_def
  save_port_def ignore_cancellation_def cancel_starting_def stop_service_def listen_fires_def
  getPort_def stopListening_def connected_def port_closes_def

lemma s_port_cancel_starting: "s_port (cancel_starting d s) = s_port s"
  by (simp add: cancel_starting_def run_starting_def starting_callbacks_def ignore_cancellation_def)

lemma stopService_raises_iff:
  "(\<exists>err s'. RegionService_stopService s = Inl (err, s')) \<longleftrightarrow>
     starting s = None \<or> (\<exists>p. s_port s = Some p \<and> socket p = None)"
proof (cases "starting s")
  case None
  then show ?thesis by (simp add: RegionService_stopService_def)
next
  case (Some d)
  show ?thesis
  proof (cases "s_port s")
    case None
    with Some show ?thesis
      by (simp add: RegionService_stopService_def s_port_cancel_starting)
  next
    case (Some p)
    with \<open>starting s = Some d\<close> show ?thesis
      by (cases "socket p")
         (simp_all add: RegionService_stopService_def s_port_cancel_starting stopListening_def
            connected_def)
  qed
qed

lemma listening_service_eq:
  "listening_service n =
     \<lparr>running = True,
      starting = Some \<lparr>called = True, result = Success (PortObject \<lparr>socket = Some (''0.0.0.0'', n)\<rparr>),
                       suppressAlreadyCalled = False\<rparr>,
      s_port = Some \<lparr>socket = Some (''0.0.0.0'', n)\<rparr>, logged = []\<rparr>"
  by (simp add: service_defs)

text \<open>
  Claim C7 says that \<open>stopService\<close> of the RPC listener is idempotent and that a
  second stop does not raise.  For a listener that has bound its port this fails:
  \<open>self._port\<close> is never reset, the first stop returns the Deferred of
  \<open>stopListening()\<close>, and once the port has closed a second stop gets \<open>None\<close> from
  \<open>stopListening()\<close> and raises \<open>AttributeError\<close> on \<open>d.addCallback\<close>.
\<close>

theorem stopService_repeated_counterexample:
  "RegionService_stopService (listening_service 4321) = Inr (pending, listening_service 4321) \<and>
   running (port_closes (listening_service 4321)) = False \<and>
   getPort (port_closes (listening_service 4321)) = None \<and>
   RegionService_stopService (port_closes (listening_service 4321)) =
     Inl (AttributeError, port_closes (listening_service 4321))"
  by (simp add: listening_service_eq RegionService_stopService_def cancel_starting_def
      stopListening_def connected_def port_closes_def stop_service_def getPort_def)

text \<open>
  Claim C7, amended.  On a started service that has saved no port (the bind of
  \<open>startService\<close> is still in flight, or was cancelled, or has failed)
  \<open>stopService\<close> does not raise.  It cancels a pending \<open>self.starting\<close>, whose
  result becomes \<open>None\<close>; nothing is logged, no port is saved and the service is
  marked as stopped.  A second \<open>stopService\<close> does not raise either and changes
  nothing.  When the cancelled bind completes after all, its result is dropped without
  an error and without a port being saved, and stopping once more is still harmless.
  On a listener that has bound, \<open>stopService\<close> returns the pending Deferred of
  \<open>stopListening()\<close> and leaves the service as it is; when the port has closed the
  service is marked as stopped, and a \<open>stopService\<close> after that raises
  \<open>AttributeError\<close>.  In all, \<open>stopService\<close> raises in two situations only: on a
  service that was never started, and when the saved port has closed.
\<close>

theorem stopService_repeated:
  assumes "starting s = Some d"
  shows "(s_port s = None \<longrightarrow>
           (\<exists>s'. RegionService_stopService s = Inr (fired (Success PyNone), s') \<and>
              running s' = False \<and> s_port s' = None \<and> logged s' = logged s \<and>
              starting s' =
                Some (if called d then d
                      else \<lparr>called = True, result = Success PyNone, suppressAlreadyCalled = True\<rparr>) \<and>
              RegionService_stopService s' = Inr (fired (Success PyNone), s') \<and>
              (\<not> called d \<longrightarrow>
                 (\<exists>s''. listen_fires r s' = Inr s'' \<and>
                    s'' = s'\<lparr>starting := Some \<lparr>called = True, result = Success PyNone,
                                                 suppressAlreadyCalled = False\<rparr>\<rparr> \<and>
                    RegionService_stopService s'' = Inr (fired (Success PyNone), s''))))) \<and>
         (\<forall>p. s_port s = Some p \<and> socket p \<noteq> None \<and> called d \<longrightarrow>
            RegionService_stopService s = Inr (pending, s) \<and>
            port_closes s = s\<lparr>running := False, s_port := Some (p\<lparr>socket := None\<rparr>)\<rparr> \<and>
            RegionService_stopService (port_closes s) = Inl (AttributeError, port_closes s)) \<and>
         (\<forall>p. s_port s = Some p \<and> socket p = None \<and> called d \<longrightarrow>
            RegionService_stopService s = Inl (AttributeError, s)) \<and>
         (\<forall>t. (\<exists>err t'. RegionService_stopService t = Inl (err, t')) =
            (starting t = None \<or> (\<exists>p. s_port t = Some p \<and> socket p = None)))"
proof (intro conjI)
  show "s_port s = None \<longrightarrow>
           (\<exists>s'. RegionService_stopService s = Inr (fired (Success PyNone), s') \<and>
              running s' = False \<and> s_port s' = None \<and> logged s' = logged s \<and>
              starting s' =
                Some (if called d then d
                      else \<lparr>called = True, result = Success PyNone, suppressAlreadyCalled = True\<rparr>) \<and>
              RegionService_stopService s' = Inr (fired (Success PyNone), s') \<and>
              (\<not> called d \<longrightarrow>
                 (\<exists>s''. listen_fires r s' = Inr s'' \<and>
                    s'' = s'\<lparr>starting := Some \<lparr>called = True, result = Success PyNone,
                                                 suppressAlreadyCalled = False\<rparr>\<rparr> \<and>
                    RegionService_stopService s'' = Inr (fired (Success PyNone), s''))))"
  proof (cases "called d")
    case True
    with assms show ?thesis
      by (simp add: RegionService_stopService_def cancel_starting_def stop_service_def)
  next
    case False
    with assms show ?thesis
      by (simp add: RegionService_stopService_def cancel_starting_def stop_service_def
          run_starting_def starting_callbacks_def ignore_cancellation_def listen_fires_def)
  qed
next
  show "\<forall>p. s_port s = Some p \<and> socket p \<noteq> None \<and> called d \<longrightarrow>
            RegionService_stopService s = Inr (pending, s) \<and>
            port_closes s = s\<lparr>running := False, s_port := Some (p\<lparr>socket := None\<rparr>)\<rparr> \<and>
            RegionService_stopService (port_closes s) = Inl (AttributeError, port_closes s)"
    using assms
    by (auto simp: RegionService_stopService_def cancel_starting_def stopListening_def
        connected_def port_closes_def stop_service_def)
next
  show "\<forall>p. s_port s = Some p \<and> socket p = None \<and> called d \<longrightarrow>
            RegionService_stopService s = Inl (AttributeError, s)"
    using assms
    by (auto simp: RegionService_stopService_def cancel_starting_def stopListening_def
        connected_def)
next
  show "\<forall>t. (\<exists>err t'. RegionService_stopService t = Inl (err, t')) =
            (starting t = None \<or> (\<exists>p. s_port t = Some p \<and> socket p = None))"
    by (simp add: stopService_raises_iff)
qed

theorem stopService_repeated_witness:
  "starting (RegionService_startService InFlight RegionService_init) = Some pending \<and>
   s_port (RegionService_startService InFlight RegionService_init) = None \<and>
   (\<exists>s'. RegionService_stopService (RegionService_startService InFlight RegionService_init) =
            Inr (fired (Success PyNone), s') \<and>
         running s' = False \<and> s_port s' = None \<and> logged s' = [] \<and>
         starting s' =
           Some \<lparr>called = True, result = Success PyNone, suppressAlreadyCalled = True\<rparr> \<and>
         RegionService_stopService s' = Inr (fired (Success PyNone), s')) \<and>
   s_port (listening_service 4321) = Some \<lparr>socket = Some (''0.0.0.0'', 4321)\<rparr> \<and>
   RegionService_stopService (listening_service 4321) = Inr (pending, listening_service 4321) \<and>
   RegionService_stopService (port_closes (listening_service 4321)) =
     Inl (AttributeError, port_closes (listening_service 4321))"
proof -
  let ?s = "RegionService_startService InFlight RegionService_init"
  have a: "starting ?s = Some pending"
    by (simp add: RegionService_startService_def RegionService_init_def endpoint_listen_def
        pending_def)
  have b: "s_port ?s = None"
    by (simp add: RegionService_startService_def RegionService_init_def endpoint_listen_def
        pending_def)
  have c: "logged ?s = []"
    by (simp add: RegionService_startService_def RegionService_init_def endpoint_listen_def
        pending_def)
  have d: "\<not> called pending"
    by (simp add: pending_def)
  have e: "starting (listening_service 4321) =
      Some \<lparr>called = True, result = Success (PortObject \<lparr>socket = Some (''0.0.0.0'', 4321)\<rparr>),
            suppressAlreadyCalled = False\<rparr>"
    by (simp add: listening_service_eq)
  have f: "s_port (listening_service 4321) = Some \<lparr>socket = Some (''0.0.0.0'', 4321)\<rparr>"
    by (simp add: listening_service_eq)
  from stopService_repeated [OF a, where r = "Success PyNone"] a b c d
  have 1: "\<exists>s'. RegionService_stopService ?s = Inr (fired (Success PyNone), s') \<and>
         running s' = False \<and> s_port s' = None \<and> logged s' = [] \<and>
         starting s' =
           Some \<lparr>called = True, result = Success PyNone, suppressAlreadyCalled = True\<rparr> \<and>
         RegionService_stopService s' = Inr (fired (Success PyNone), s')"
    by auto
  from stopService_repeated [OF e, where r = "Success PyNone"] f
  have 2: "RegionService_stopService (listening_service 4321) = Inr (pending, listening_service 4321) \<and>
      RegionService_stopService (port_closes (listening_service 4321)) =
        Inl (AttributeError, port_closes (listening_service 4321))"
    by auto
  from a b 1 f 2 show ?thesis by simp
qed

text \<open>
  Claim C8.  \<open>getPort\<close> is a total function: it answers \<open>None\<close> or a port number and
  never raises.  It answers \<open>None\<close> before \<open>startService\<close>, while the bind is in
  flight, when the bind has failed, and when the start was cancelled by
  \<open>stopService\<close>, also after the cancelled bind has completed.  Once the endpoint has
  bound a socket to which the operating system has given the port \<open>n\<close> between 1 and
  65535, it answers \<open>n\<close>.  Whatever it answers in any state is the number that the
  socket of the saved port reports at that moment; after the port has closed it answers
  \<open>None\<close> again.
\<close>

theorem getPort_sentinel_or_bound_port:
  assumes "0 < n" and "n \<le> 65535"
  shows "getPort RegionService_init = None \<and>
         getPort (RegionService_startService InFlight RegionService_init) = None \<and>
         getPort (RegionService_startService (BindFailed err) RegionService_init) = None \<and>
         (\<exists>d s. RegionService_stopService
                   (RegionService_startService InFlight RegionService_init) = Inr (d, s) \<and>
                 getPort s = None \<and>
                 (\<exists>s'. listen_fires r s = Inr s' \<and> getPort s' = None)) \<and>
         getPort (RegionService_startService (Bound \<lparr>socket = Some (host, n)\<rparr>) RegionService_init) =
           Some n \<and>
         (\<exists>q. getPort (RegionService_startService (Bound \<lparr>socket = Some (host, n)\<rparr>)
                         RegionService_init) = Some q \<and>
              1 \<le> q \<and> q \<le> 65535) \<and>
         (\<forall>s. getPort s = None \<or>
              (\<exists>p h q. s_port s = Some p \<and> socket p = Some (h, q) \<and> getPort s = Some q)) \<and>
         getPort (port_closes (RegionService_startService (Bound \<lparr>socket = Some (host, n)\<rparr>)
                                 RegionService_init)) = None"
  using assms
  apply (intro conjI)
         apply (simp_all add: region_defs)
   apply (auto split: option.splits simp: port_closes_def connected_def stop_service_def)
  done

theorem getPort_sentinel_or_bound_port_witness:
  "(0::int) < 4321 \<and> (4321::int) \<le> 65535 \<and>
   getPort RegionService_init = None \<and>
   getPort (RegionService_startService (Bound \<lparr>socket = Some (''0.0.0.0'', 4321)\<rparr>)
              RegionService_init) = Some 4321"
proof -
  have a: "(0::int) < 4321" and b: "(4321::int) \<le> 65535"
    by simp_all
  from getPort_sentinel_or_bound_port [OF a b, where host = "''0.0.0.0''"] a b
  show ?thesis by blast
qed

end
